theory Spec2Isabelle
  imports Main "HOL-Library.Word"
begin

unbundle bit_operations_syntax

section \<open>The POSIX platform network interface of OpenThread (netif.cpp)\<close>

text \<open>
  The development follows \<^verbatim>\<open>src/posix/platform/netif.cpp\<close>. The file is compiled for
  four operating systems and selects code with the preprocessor; the model takes the operating
  system as an argument and branches where the source has an \<^verbatim>\<open>#if\<close>.
\<close>

subsection \<open>Octets, addresses and platforms\<close>

type_synonym byte = "8 word"

text \<open>An \<^verbatim>\<open>in6_addr\<close> / \<^verbatim>\<open>otIp6Address\<close>: 16 octets, \<^verbatim>\<open>s6_addr[0]\<close> first.\<close>

type_synonym in6_addr = "byte list"

datatype platform = Linux | Apple | NetBSD | FreeBSD

text \<open>
  \<^verbatim>\<open>#if defined(__APPLE__) || defined(__NetBSD__) || defined(__FreeBSD__)\<close>: the platforms
  whose tunnel carries the 4-octet address-family header and which use a routing socket.
\<close>

fun is_bsd :: "platform \<Rightarrow> bool" where
  "is_bsd Linux = False"
| "is_bsd Apple = True"
| "is_bsd NetBSD = True"
| "is_bsd FreeBSD = True"

text \<open>
  \<^verbatim>\<open>OPENTHREAD_POSIX_USE_MLD_MONITOR\<close> is 0 when \<^verbatim>\<open>RTM_NEWMADDR\<close> is defined or on NetBSD,
  and 1 otherwise; the source's comment names macOS and FreeBSD as the systems that have
  \<^verbatim>\<open>RTM_NEWMADDR\<close> and Linux as the one that needs the monitor.
\<close>

fun has_RTM_NEWMADDR :: "platform \<Rightarrow> bool" where
  "has_RTM_NEWMADDR Linux = False"
| "has_RTM_NEWMADDR Apple = True"
| "has_RTM_NEWMADDR NetBSD = False"
| "has_RTM_NEWMADDR FreeBSD = True"

definition OPENTHREAD_POSIX_USE_MLD_MONITOR :: "platform \<Rightarrow> bool" where
  "OPENTHREAD_POSIX_USE_MLD_MONITOR p = (\<not> (has_RTM_NEWMADDR p \<or> p = NetBSD))"

subsection \<open>Prefix masks: \<^verbatim>\<open>apply_mask\<close> and \<^verbatim>\<open>calculate_prefix_len\<close>\<close>

text \<open>
  \<^verbatim>\<open>memset(p + k, 0, n)\<close> on an array held as a list. A write that would leave the array is
  \<open>None\<close>.
\<close>

definition memset_zero :: "byte list \<Rightarrow> nat \<Rightarrow> nat \<Rightarrow> byte list option" where
  "memset_zero a k n =
     (if k + n \<le> length a then Some (take k a @ replicate n 0 @ drop (k + n) a) else None)"

text \<open>\<^verbatim>\<open>a[i] &= v\<close>; an index outside the array is \<open>None\<close>.\<close>

definition and_assign :: "byte list \<Rightarrow> nat \<Rightarrow> byte \<Rightarrow> byte list option" where
  "and_assign a i v = (if i < length a then Some (a[i := (a ! i) AND v]) else None)"

text \<open>
  \<^verbatim>\<open>apply_mask(struct in6_addr *address, uint8_t mask)\<close>. The arithmetic on \<open>mask\<close> is done
  in \<^verbatim>\<open>int\<close> after promotion, so \<open>mask + 7\<close> does not wrap; the count given to \<^verbatim>\<open>memset\<close>
  is \<open>16 - (mask + 7) / 8\<close>. \<^verbatim>\<open>~(0xFF >> (mask % 8))\<close> is truncated to an octet by the
  assignment.
\<close>

definition apply_mask :: "in6_addr \<Rightarrow> byte \<Rightarrow> in6_addr option" where
  "apply_mask address mask0 =
     (let mask = (if unat mask0 > 128 then 128 else unat mask0) in
      if 16 < (mask + 7) div 8 then None
      else
        case memset_zero address ((mask + 7) div 8) (16 - (mask + 7) div 8) of
          None \<Rightarrow> None
        | Some a1 \<Rightarrow>
            if mask mod 8 \<noteq> 0
            then and_assign a1 (mask div 8) (NOT (drop_bit (mask mod 8) (0xFF :: byte)))
            else Some a1)"

text \<open>The inner loop of \<^verbatim>\<open>calculate_prefix_len\<close>: \<open>j\<close> runs from 7 down to 0; the first
  argument below is \<open>j + 1\<close>.\<close>

fun count_bits_loop :: "nat \<Rightarrow> byte \<Rightarrow> nat \<Rightarrow> nat" where
  "count_bits_loop 0 b result = result"
| "count_bits_loop (Suc j) b result =
     (if b AND (push_bit j 1) \<noteq> 0 then count_bits_loop j b (result + 1) else result)"

text \<open>The outer loop over the octets of \<^verbatim>\<open>sin6_addr.s6_addr\<close>.\<close>

fun prefix_len_loop :: "byte list \<Rightarrow> nat \<Rightarrow> nat" where
  "prefix_len_loop [] result = result"
| "prefix_len_loop (b # bs) result =
     (if b = 0xFF then prefix_len_loop bs (result + 8) else count_bits_loop 8 b result)"

definition calculate_prefix_len :: "in6_addr \<Rightarrow> nat" where
  "calculate_prefix_len s6_addr = prefix_len_loop s6_addr 0"

text \<open>
  What the claims call a netmask of \<open>N\<close> leading one-bits followed by zero-bits: the bits,
  most significant first, packed eight to an octet.
\<close>

definition byte_of_bits :: "bool list \<Rightarrow> byte" where
  "byte_of_bits bs = foldl (\<lambda>w b. 2 * w + (if b then 1 else 0)) 0 bs"

fun pack_octets :: "nat \<Rightarrow> bool list \<Rightarrow> byte list" where
  "pack_octets 0 bs = []"
| "pack_octets (Suc k) bs = byte_of_bits (take 8 bs) # pack_octets k (drop 8 bs)"

definition netmask_of :: "nat \<Rightarrow> in6_addr" where
  "netmask_of n = pack_octets 16 (replicate n True @ replicate (128 - n) False)"


subsection \<open>Errors, effects and the state of the module\<close>

text \<open>The \<^verbatim>\<open>otError\<close> values the file distinguishes; any other is \<open>OT_ERROR_OTHER\<close>.\<close>

datatype otError =
    OT_ERROR_NONE
  | OT_ERROR_FAILED
  | OT_ERROR_NO_BUFS
  | OT_ERROR_ALREADY
  | OT_ERROR_NOT_FOUND
  | OT_ERROR_INVALID_STATE
  | OT_ERROR_OTHER nat

datatype exit_code = OT_EXIT_FAILURE | OT_EXIT_INVALID_ARGUMENTS | OT_EXIT_ERROR_ERRNO

text \<open>\<^verbatim>\<open>errno\<close> after a failed system call.\<close>

datatype errno = EALREADY | EEXIST | EINVAL | E_OTHER nat

text \<open>The return of \<^verbatim>\<open>ioctl\<close>: 0, or -1 with \<^verbatim>\<open>errno\<close> set.\<close>

datatype sys_result = Sys_ok | Sys_err errno

datatype log_level = Warn | Note | Info | Debg

text \<open>
  The \<^verbatim>\<open>ioctl\<close> requests of the file with the fields of their argument that the code
  fills in: the interface flags (\<^verbatim>\<open>short ifr_flags\<close>), the Linux \<^verbatim>\<open>in6_ifreq\<close>
  (address, prefix length, interface index) and the BSD \<^verbatim>\<open>in6_aliasreq\<close> (address and
  prefix mask).
\<close>

datatype ioctl_req =
    SIOCGIFFLAGS
  | SIOCSIFFLAGS "16 word"
  | SIOCSIFADDR in6_addr nat nat
  | SIOCDIFADDR in6_addr nat nat
  | SIOCAIFADDR_IN6 in6_addr in6_addr
  | SIOCDIFADDR_IN6 in6_addr in6_addr
  | SIOCIFDESTROY

text \<open>What a function does to the kernel, to the OpenThread stack and to the log, in order.\<close>

datatype effect =
    Close int
  | Ioctl int ioctl_req
  | Write int "byte list"
  | Perror
  | Log log_level
  | MessageFree
  | Ip6Send "byte list"
  | Ip6AddUnicastAddress in6_addr nat
  | Ip6RemoveUnicastAddress in6_addr
  | Ip6SubscribeMulticastAddress in6_addr
  | Ip6UnsubscribeMulticastAddress in6_addr

text \<open>
  How a call ends: it returns; \<^verbatim>\<open>VerifyOrDie\<close> ends the process with an exit code; an
  \<^verbatim>\<open>assert\<close> fails; or the code touches memory outside an object or reads memory that
  holds no message data (\<open>Undefined\<close>).
\<close>

datatype fate = Returns | Dies exit_code | AssertFails | Undefined

text \<open>The file's static variables. An \<^verbatim>\<open>otInstance *\<close> is held as a number.\<close>

record netif_state =
  sInstance :: nat
  sTunFd :: int
  sIpFd :: int
  sNetlinkFd :: int
  sMLDMonitorFd :: int
  sTunIndex :: nat
  sTunName :: string

text \<open>
  The two mirrors of the link state: the kernel's interface flags of the tunnel (read by
  \<^verbatim>\<open>SIOCGIFFLAGS\<close>, replaced by a successful \<^verbatim>\<open>SIOCSIFFLAGS\<close>) and the stack's
  \<^verbatim>\<open>otIp6IsEnabled\<close>.
\<close>

record world =
  if_flags :: "16 word"
  ip6_enabled :: bool

definition IFF_UP :: "16 word" where
  "IFF_UP = 0x1"

definition kMaxIp6Size :: nat where
  "kMaxIp6Size = 1536"

text \<open>Projections of a trace.\<close>

fun is_stack_call :: "effect \<Rightarrow> bool" where
  "is_stack_call (Ip6Send _) = True"
| "is_stack_call (Ip6AddUnicastAddress _ _) = True"
| "is_stack_call (Ip6RemoveUnicastAddress _) = True"
| "is_stack_call (Ip6SubscribeMulticastAddress _) = True"
| "is_stack_call (Ip6UnsubscribeMulticastAddress _) = True"
| "is_stack_call _ = False"

fun is_kernel_call :: "effect \<Rightarrow> bool" where
  "is_kernel_call (Close _) = True"
| "is_kernel_call (Ioctl _ _) = True"
| "is_kernel_call (Write _ _) = True"
| "is_kernel_call _ = False"

fun is_set_flags :: "effect \<Rightarrow> bool" where
  "is_set_flags (Ioctl _ (SIOCSIFFLAGS _)) = True"
| "is_set_flags _ = False"

fun is_close :: "effect \<Rightarrow> bool" where
  "is_close (Close _) = True"
| "is_close _ = False"

definition stack_calls :: "effect list \<Rightarrow> effect list" where
  "stack_calls es = filter is_stack_call es"

definition kernel_calls :: "effect list \<Rightarrow> effect list" where
  "kernel_calls es = filter is_kernel_call es"

subsection \<open>\<^verbatim>\<open>UpdateUnicast\<close>\<close>

text \<open>
  \<open>res\<close> is what the one \<^verbatim>\<open>ioctl\<close> of the call returns. On Linux an add goes through
  \<^verbatim>\<open>VerifyOrDie\<close>, a removal through \<^verbatim>\<open>VerifyOrExit\<close>; on the BSDs both go through
  \<^verbatim>\<open>VerifyOrExit\<close> after \<^verbatim>\<open>EALREADY\<close> has been turned into success. The final log is a
  warning when \<open>error\<close> is not \<open>OT_ERROR_NONE\<close>.
\<close>

definition UpdateUnicast ::
  "platform \<Rightarrow> nat \<Rightarrow> in6_addr \<Rightarrow> byte \<Rightarrow> bool \<Rightarrow> sys_result \<Rightarrow> netif_state \<Rightarrow> fate \<times> effect list"
where
  "UpdateUnicast p aInstance aAddress aPrefixLength aIsAdded res s =
     (if sInstance s \<noteq> aInstance then (AssertFails, [])
      else if \<not> (sIpFd s \<ge> 0) then (Returns, [Log Warn])
      else if p = Linux then
        (if aIsAdded then
           (if res = Sys_ok
            then (Returns,
                  [Ioctl (sIpFd s) (SIOCSIFADDR aAddress (unat aPrefixLength) (sTunIndex s)),
                   Log Info])
            else (Dies OT_EXIT_ERROR_ERRNO,
                  [Ioctl (sIpFd s) (SIOCSIFADDR aAddress (unat aPrefixLength) (sTunIndex s))]))
         else
           (if res = Sys_ok
            then (Returns,
                  [Ioctl (sIpFd s) (SIOCDIFADDR aAddress (unat aPrefixLength) (sTunIndex s)),
                   Log Info])
            else (Returns,
                  [Ioctl (sIpFd s) (SIOCDIFADDR aAddress (unat aPrefixLength) (sTunIndex s)),
                   Perror, Log Warn])))
      else
        (case apply_mask (replicate 16 0xFF) aPrefixLength of
           None \<Rightarrow> (Undefined, [])
         | Some prefixmask \<Rightarrow>
             (let req = (if aIsAdded then SIOCAIFADDR_IN6 aAddress prefixmask
                         else SIOCDIFADDR_IN6 aAddress prefixmask);
                  err = (if res = Sys_err EALREADY then Sys_ok else res)
              in if err = Sys_ok
                 then (Returns, [Ioctl (sIpFd s) req, Log Info])
                 else (Returns, [Ioctl (sIpFd s) req, Perror, Log Warn]))))"

subsection \<open>\<^verbatim>\<open>UpdateLink\<close> and \<^verbatim>\<open>processStateChange\<close>\<close>

text \<open>
  \<open>get_ok\<close> and \<open>set_ok\<close> say whether \<^verbatim>\<open>SIOCGIFFLAGS\<close> and \<^verbatim>\<open>SIOCSIFFLAGS\<close> return 0.
\<close>

definition UpdateLink ::
  "bool \<Rightarrow> bool \<Rightarrow> nat \<Rightarrow> netif_state \<Rightarrow> world \<Rightarrow> fate \<times> effect list \<times> world"
where
  "UpdateLink get_ok set_ok aInstance s w =
     (if sInstance s \<noteq> aInstance then (AssertFails, [], w)
      else if \<not> (sIpFd s \<ge> 0) then (Returns, [Log Info], w)
      else if \<not> get_ok then (Returns, [Ioctl (sIpFd s) SIOCGIFFLAGS, Perror, Log Warn], w)
      else
        (let ifr_flags = if_flags w;
             if_state = (ifr_flags AND IFF_UP = IFF_UP);
             ot_state = ip6_enabled w
         in if if_state \<noteq> ot_state then
              (let ifr_flags' = (if ot_state then ifr_flags OR IFF_UP
                                 else ifr_flags AND NOT IFF_UP)
               in if set_ok
                  then (Returns,
                        [Ioctl (sIpFd s) SIOCGIFFLAGS, Log Note,
                         Ioctl (sIpFd s) (SIOCSIFFLAGS ifr_flags'), Log Info],
                        w\<lparr>if_flags := ifr_flags'\<rparr>)
                  else (Returns,
                        [Ioctl (sIpFd s) SIOCGIFFLAGS, Log Note,
                         Ioctl (sIpFd s) (SIOCSIFFLAGS ifr_flags'), Perror, Log Warn],
                        w))
            else (Returns, [Ioctl (sIpFd s) SIOCGIFFLAGS, Log Note, Log Info], w)))"

text \<open>
  \<^verbatim>\<open>if (OT_CHANGED_THREAD_NETIF_STATE | aFlags)\<close>. The constant comes from
  \<^verbatim>\<open>openthread/instance.h\<close>, which is not part of the sources at hand: it is the argument
  \<open>OT_CHANGED_THREAD_NETIF_STATE\<close>, a single flag bit of the 32-bit \<^verbatim>\<open>otChangedFlags\<close>.
\<close>

definition processStateChange ::
  "32 word \<Rightarrow> bool \<Rightarrow> bool \<Rightarrow> 32 word \<Rightarrow> nat \<Rightarrow> netif_state \<Rightarrow> world
     \<Rightarrow> fate \<times> effect list \<times> world"
where
  "processStateChange OT_CHANGED_THREAD_NETIF_STATE get_ok set_ok aFlags aContext s w =
     (if (OT_CHANGED_THREAD_NETIF_STATE OR aFlags) \<noteq> 0
      then UpdateLink get_ok set_ok aContext s w
      else (Returns, [], w))"

text \<open>The contract the specification asks for: the same with \<^verbatim>\<open>&\<close>.\<close>

definition intended_processStateChange ::
  "32 word \<Rightarrow> bool \<Rightarrow> bool \<Rightarrow> 32 word \<Rightarrow> nat \<Rightarrow> netif_state \<Rightarrow> world
     \<Rightarrow> fate \<times> effect list \<times> world"
where
  "intended_processStateChange OT_CHANGED_THREAD_NETIF_STATE get_ok set_ok aFlags aContext s w =
     (if (OT_CHANGED_THREAD_NETIF_STATE AND aFlags) \<noteq> 0
      then UpdateLink get_ok set_ok aContext s w
      else (Returns, [], w))"

subsection \<open>The packet shuttle: \<^verbatim>\<open>processReceive\<close> and \<^verbatim>\<open>processTransmit\<close>\<close>

text \<open>
  \<^verbatim>\<open>processReceive\<close>: \<open>aMessage\<close> is the content of the stack's message, so
  \<^verbatim>\<open>otMessageGetLength\<close> is its length and \<^verbatim>\<open>otMessageRead(aMessage, 0, buf, max_length)\<close>
  copies and returns \<open>min length max_length\<close> octets. \<open>PF_INET6\<close> is the constant of the
  operating system's \<^verbatim>\<open>sys/socket.h\<close>, an argument here. \<open>write_res\<close> is the return of
  \<^verbatim>\<open>write\<close>. \<^verbatim>\<open>gLogPackets\<close> is never set in the file, so the dump is left out.
\<close>

definition processReceive ::
  "platform \<Rightarrow> nat \<Rightarrow> byte list \<Rightarrow> nat \<Rightarrow> int \<Rightarrow> netif_state \<Rightarrow> fate \<times> effect list"
where
  "processReceive p PF_INET6 aMessage aContext write_res s =
     (let len = length aMessage;
          max_length = (kMaxIp6Size + 4) - 4
      in if sInstance s \<noteq> aContext then (AssertFails, [])
         else if \<not> (sTunFd s > 0) then (Returns, [MessageFree, Log Info])
         else if min len max_length \<noteq> len then (Returns, [MessageFree, Log Warn])
         else
           (let packet = (if is_bsd p
                          then [0, 0, of_nat (push_bit 8 PF_INET6 AND 0xFF),
                                of_nat (push_bit 0 PF_INET6 AND 0xFF)] @ aMessage
                          else aMessage);
                len' = (if is_bsd p then (len + 4) mod 65536 else len)
            in if write_res = int len'
               then (Returns, [Write (sTunFd s) (take len' packet), MessageFree, Log Info])
               else (Returns,
                     [Write (sTunFd s) (take len' packet), Perror, MessageFree, Log Warn])))"

text \<open>
  \<^verbatim>\<open>processTransmit\<close>: \<open>tun_read\<close> is what \<^verbatim>\<open>read\<close> on the tunnel gives: \<open>None\<close> for
  -1, otherwise the pending datagram, of which at most \<^verbatim>\<open>sizeof(packet)\<close> octets arrive.
  \<open>new_ok\<close> says whether \<^verbatim>\<open>otIp6NewMessage\<close> returns a message, \<open>append_res\<close> and
  \<open>send_res\<close> are the returns of \<^verbatim>\<open>otMessageAppend\<close> and \<^verbatim>\<open>otIp6Send\<close>.
\<close>

definition processTransmit ::
  "platform \<Rightarrow> nat \<Rightarrow> byte list option \<Rightarrow> bool \<Rightarrow> otError \<Rightarrow> otError \<Rightarrow> netif_state
     \<Rightarrow> fate \<times> effect list"
where
  "processTransmit p aInstance tun_read new_ok append_res send_res s =
     (if sInstance s \<noteq> aInstance then (AssertFails, [])
      else case tun_read of
        None \<Rightarrow> (Returns, [Log Warn])
      | Some datagram \<Rightarrow>
          (let packet = take kMaxIp6Size datagram;
               rval = length packet
           in if \<not> (rval > 0) then (Returns, [Log Warn])
              else if \<not> new_ok then (Returns, [Log Warn])
              else
                (let strip = (is_bsd p \<and> rval \<ge> 4 \<and> packet ! 0 = 0 \<and> packet ! 1 = 0);
                     rval' = (if strip then rval - 4 else rval);
                     offset = (if strip then 4 else 0)
                 in if append_res \<noteq> OT_ERROR_NONE then (Returns, [MessageFree, Log Warn])
                    else (Returns,
                          [Ip6Send (take rval' (drop offset packet)),
                           Log (if send_res = OT_ERROR_NONE then Info else Warn)]))))"

subsection \<open>\<^verbatim>\<open>platformNetifDeinit\<close>\<close>

text \<open>\<^verbatim>\<open>destroyTunnel\<close> (NetBSD and FreeBSD); its result is not used by the caller.\<close>

definition destroyTunnel :: "sys_result \<Rightarrow> netif_state \<Rightarrow> effect list" where
  "destroyTunnel res s =
     (if res = Sys_ok then [Ioctl (sIpFd s) SIOCIFDESTROY]
      else [Ioctl (sIpFd s) SIOCIFDESTROY, Perror])"

definition close_tun :: "platform \<Rightarrow> sys_result \<Rightarrow> netif_state \<Rightarrow> effect list \<times> netif_state" where
  "close_tun p destroy_res s =
     (if sTunFd s \<noteq> - 1
      then (Close (sTunFd s)
              # (if p = NetBSD \<or> p = FreeBSD
                 then destroyTunnel destroy_res (s\<lparr>sTunFd := - 1\<rparr>) else []),
            s\<lparr>sTunFd := - 1\<rparr>)
      else ([], s))"

definition close_ip :: "netif_state \<Rightarrow> effect list \<times> netif_state" where
  "close_ip s = (if sIpFd s \<noteq> - 1 then ([Close (sIpFd s)], s\<lparr>sIpFd := - 1\<rparr>) else ([], s))"

definition close_netlink :: "netif_state \<Rightarrow> effect list \<times> netif_state" where
  "close_netlink s =
     (if sNetlinkFd s \<noteq> - 1 then ([Close (sNetlinkFd s)], s\<lparr>sNetlinkFd := - 1\<rparr>) else ([], s))"

definition close_mld :: "platform \<Rightarrow> netif_state \<Rightarrow> effect list \<times> netif_state" where
  "close_mld p s =
     (if OPENTHREAD_POSIX_USE_MLD_MONITOR p \<and> sMLDMonitorFd s \<noteq> - 1
      then ([Close (sMLDMonitorFd s)], s\<lparr>sMLDMonitorFd := - 1\<rparr>) else ([], s))"

definition platformNetifDeinit ::
  "platform \<Rightarrow> sys_result \<Rightarrow> netif_state \<Rightarrow> effect list \<times> netif_state"
where
  "platformNetifDeinit p destroy_res s =
     (let (e1, s1) = close_tun p destroy_res s;
          (e2, s2) = close_ip s1;
          (e3, s3) = close_netlink s2;
          (e4, s4) = close_mld p s3
      in (e1 @ e2 @ e3 @ e4, s4\<lparr>sTunIndex := 0\<rparr>))"

subsection \<open>The stack as seen by the event handlers\<close>

text \<open>
  The handlers call the stack and look only at the error it returns and, on the BSDs, at its
  list of unicast addresses (\<^verbatim>\<open>otIp6GetUnicastAddresses\<close>).
\<close>

record stack_env =
  add_unicast_res :: "in6_addr \<Rightarrow> otError"
  remove_unicast_res :: "in6_addr \<Rightarrow> otError"
  subscribe_res :: "in6_addr \<Rightarrow> otError"
  unsubscribe_res :: "in6_addr \<Rightarrow> otError"
  unicast_addresses :: "in6_addr list"

text \<open>\<^verbatim>\<open>mFields.m8[0] == 0xff\<close>, as in \<^verbatim>\<open>processAddressChange\<close>.\<close>

definition IsMulticast :: "in6_addr \<Rightarrow> bool" where
  "IsMulticast a = (a ! 0 = 0xff)"

text \<open>The macros of \<^verbatim>\<open>netinet/in.h\<close>.\<close>

definition IN6_IS_ADDR_LINKLOCAL :: "in6_addr \<Rightarrow> bool" where
  "IN6_IS_ADDR_LINKLOCAL a = (a ! 0 = 0xfe \<and> (a ! 1) AND 0xc0 = 0x80)"

definition IN6_IS_ADDR_MC_LINKLOCAL :: "in6_addr \<Rightarrow> bool" where
  "IN6_IS_ADDR_MC_LINKLOCAL a = (a ! 0 = 0xff \<and> (a ! 1) AND 0x0f = 0x02)"

datatype sa_family = AF_UNSPEC | AF_INET6 | AF_OTHER nat

text \<open>A \<^verbatim>\<open>sockaddr\<close> read as a \<^verbatim>\<open>sockaddr_in6\<close>: its family and its \<^verbatim>\<open>sin6_addr\<close>.\<close>

record sockaddr =
  sa_family :: sa_family
  sin6_addr :: in6_addr

datatype msg_type =
    RTM_NEWADDR | RTM_DELADDR | RTM_NEWLINK | RTM_DELLINK
  | RTM_NEWMADDR | RTM_DELMADDR | RTM_IFINFO | RTM_OTHER nat

subsection \<open>The MLD monitor: \<^verbatim>\<open>processMLDEvent\<close>\<close>

definition kMaxMLDEvent :: nat where
  "kMaxMLDEvent = 8192"

definition kICMPv6MLDv2Type :: byte where
  "kICMPv6MLDv2Type = 143"

definition kICMPv6MLDv2RecordChangeToExcludeType :: byte where
  "kICMPv6MLDv2RecordChangeToExcludeType = 3"

definition kICMPv6MLDv2RecordChangeToIncludeType :: byte where
  "kICMPv6MLDv2RecordChangeToIncludeType = 4"

definition IFNAMSIZ :: nat where
  "IFNAMSIZ = 16"

text \<open>The sizes of the packed structures \<^verbatim>\<open>MLDv2Header\<close> and \<^verbatim>\<open>MLDv2Record\<close>.\<close>

definition sizeof_MLDv2Header :: nat where
  "sizeof_MLDv2Header = 8"

definition sizeof_MLDv2Record :: nat where
  "sizeof_MLDv2Record = 20"

text \<open>\<^verbatim>\<open>ntohs\<close> of a 16-bit field whose first octet in memory is \<open>hi\<close>.\<close>

definition ntohs :: "byte \<Rightarrow> byte \<Rightarrow> nat" where
  "ntohs hi lo = 256 * unat hi + unat lo"

record ifaddrs =
  ifa_name :: string
  ifa_addr :: "sockaddr option"

text \<open>The loop over the list of \<^verbatim>\<open>getifaddrs\<close> that sets \<open>fromSelf\<close>.\<close>

fun from_self_loop :: "string \<Rightarrow> in6_addr \<Rightarrow> ifaddrs list \<Rightarrow> bool" where
  "from_self_loop name src [] = False"
| "from_self_loop name src (ifAddr # rest) =
     (case ifa_addr ifAddr of
        None \<Rightarrow> from_self_loop name src rest
      | Some sa \<Rightarrow>
          if sa_family sa = AF_INET6 \<and> take IFNAMSIZ name = take IFNAMSIZ (ifa_name ifAddr)
          then (if sin6_addr sa = src then True else from_self_loop name src rest)
          else from_self_loop name src rest)"

text \<open>
  The loop over the records. The first argument counts the iterations that remain
  (\<open>ntohs(hdr->mNumRecords) - i\<close>); \<open>offset\<close> and the buffer are as in the source, and
  \<open>bufferLen\<close> is the length of the buffer.
\<close>

fun mld_record_loop :: "nat \<Rightarrow> nat \<Rightarrow> byte list \<Rightarrow> stack_env \<Rightarrow> effect list" where
  "mld_record_loop 0 offset buffer st = []"
| "mld_record_loop (Suc k) offset buffer st =
     (if \<not> offset < length buffer then []
      else if length buffer \<ge> sizeof_MLDv2Record + offset then
        (let mRecordType = buffer ! offset;
             mNumSources = ntohs (buffer ! (offset + 2)) (buffer ! (offset + 3));
             address = take 16 (drop (offset + 4) buffer)
         in (if mRecordType = kICMPv6MLDv2RecordChangeToIncludeType
             then [Ip6SubscribeMulticastAddress address,
                   Log (if subscribe_res st address = OT_ERROR_ALREADY then Note
                        else if subscribe_res st address \<noteq> OT_ERROR_NONE then Warn else Debg)]
             else if mRecordType = kICMPv6MLDv2RecordChangeToExcludeType
             then [Ip6UnsubscribeMulticastAddress address,
                   Log (if unsubscribe_res st address \<noteq> OT_ERROR_NONE then Warn else Debg)]
             else [])
            @ mld_record_loop k (offset + (sizeof_MLDv2Record + 16 * mNumSources)) buffer st)
      else mld_record_loop k offset buffer st)"

text \<open>
  \<open>recv\<close> is the result of \<^verbatim>\<open>recvfrom\<close>: \<open>None\<close> for -1, otherwise the datagram and its
  source address; at most \<^verbatim>\<open>sizeof(buffer)\<close> octets arrive. \<open>getifaddrs_res\<close> is \<open>None\<close>
  when \<^verbatim>\<open>getifaddrs\<close> fails.
\<close>

definition processMLDEvent ::
  "(byte list \<times> in6_addr) option \<Rightarrow> ifaddrs list option \<Rightarrow> stack_env \<Rightarrow> netif_state
     \<Rightarrow> fate \<times> effect list"
where
  "processMLDEvent recv getifaddrs_res st s =
     (case recv of
        None \<Rightarrow> (Returns, [])
      | Some (datagram, srcAddr) \<Rightarrow>
          (let buffer = take kMaxMLDEvent datagram;
               bufferLen = length buffer
           in if \<not> bufferLen > 0 then (Returns, [])
              else if \<not> (buffer ! 0 = kICMPv6MLDv2Type \<and> bufferLen \<ge> sizeof_MLDv2Header)
              then (Returns, [])
              else case getifaddrs_res of
                     None \<Rightarrow> (Returns, [])
                   | Some ifAddrs \<Rightarrow>
                       if \<not> from_self_loop (sTunName s) srcAddr ifAddrs then (Returns, [])
                       else (Returns,
                             mld_record_loop (ntohs (buffer ! 6) (buffer ! 7))
                               sizeof_MLDv2Header buffer st)))"

text \<open>
  An MLDv2 report as RFC 3810 lays it out, to state what a well-formed report is: the header
  and, for each record, type, auxiliary data length (zero, there being no auxiliary data),
  number of sources, multicast address and the source addresses.
\<close>

record mld_record =
  record_type :: byte
  multicast_address :: in6_addr
  sources :: "in6_addr list"

definition htons :: "nat \<Rightarrow> byte list" where
  "htons n = [of_nat (n div 256), of_nat (n mod 256)]"

definition encode_record :: "mld_record \<Rightarrow> byte list" where
  "encode_record r =
     [record_type r, 0] @ htons (length (sources r)) @ multicast_address r @ concat (sources r)"

definition encode_report :: "byte \<Rightarrow> byte \<Rightarrow> mld_record list \<Rightarrow> byte list" where
  "encode_report ck1 ck2 rs =
     [143, 0, ck1, ck2, 0, 0] @ htons (length rs) @ concat (map encode_record rs)"

definition wf_record :: "mld_record \<Rightarrow> bool" where
  "wf_record r =
     (length (multicast_address r) = 16 \<and> length (sources r) < 65536
      \<and> list_all (\<lambda>a. length a = 16) (sources r))"

subsection \<open>Address events: \<^verbatim>\<open>processNetifAddrEvent\<close> on Linux\<close>

datatype rta_type =
    IFA_ADDRESS | IFA_LOCAL | IFA_BROADCAST | IFA_ANYCAST | IFA_MULTICAST | IFA_OTHER nat

fun is_address_rta :: "rta_type \<Rightarrow> bool" where
  "is_address_rta (IFA_OTHER _) = False"
| "is_address_rta _ = True"

text \<open>
  A netlink address message: the type of the \<^verbatim>\<open>nlmsghdr\<close>, the fields of the
  \<^verbatim>\<open>ifaddrmsg\<close> and the attributes, each with the 16 octets that \<^verbatim>\<open>memcpy\<close> takes from
  its payload.
\<close>

record nl_addr_msg =
  nlmsg_type :: msg_type
  ifa_family :: sa_family
  ifa_prefixlen :: byte
  ifa_index :: nat
  rtattrs :: "(rta_type \<times> in6_addr) list"

text \<open>
  The loop over the attributes. It carries \<open>error\<close>; \<^verbatim>\<open>SuccessOrExit\<close> leaves the loop, and
  then the remaining attributes are not looked at.
\<close>

fun rta_loop ::
  "msg_type \<Rightarrow> byte \<Rightarrow> stack_env \<Rightarrow> (rta_type \<times> in6_addr) list \<Rightarrow> otError
     \<Rightarrow> effect list \<times> otError"
where
  "rta_loop t plen st [] error = ([], error)"
| "rta_loop t plen st ((ty, addr) # rest) error =
     (if is_address_rta ty then
        (if t = RTM_NEWADDR then
           (if \<not> IsMulticast addr then
              (let e = add_unicast_res st addr;
                   es = [Ip6AddUnicastAddress addr (unat plen),
                         Log (if e = OT_ERROR_NONE \<or> e = OT_ERROR_ALREADY then Note else Warn)]
               in if e = OT_ERROR_NONE
                  then (es @ fst (rta_loop t plen st rest e), snd (rta_loop t plen st rest e))
                  else (es, e))
            else
              (let e = subscribe_res st addr
               in if e = OT_ERROR_NONE \<or> e = OT_ERROR_ALREADY
                  then ([Ip6SubscribeMulticastAddress addr, Log Note]
                          @ fst (rta_loop t plen st rest OT_ERROR_NONE),
                        snd (rta_loop t plen st rest OT_ERROR_NONE))
                  else ([Ip6SubscribeMulticastAddress addr, Log Warn], e)))
         else if t = RTM_DELADDR then
           (if \<not> IsMulticast addr then
              (let e = remove_unicast_res st addr
               in if e = OT_ERROR_NONE \<or> e = OT_ERROR_NOT_FOUND
                  then ([Ip6RemoveUnicastAddress addr, Log Note]
                          @ fst (rta_loop t plen st rest OT_ERROR_NONE),
                        snd (rta_loop t plen st rest OT_ERROR_NONE))
                  else ([Ip6RemoveUnicastAddress addr, Log Warn]
                          @ fst (rta_loop t plen st rest e),
                        snd (rta_loop t plen st rest e)))
            else
              (let e = unsubscribe_res st addr
               in if e = OT_ERROR_NONE \<or> e = OT_ERROR_NOT_FOUND
                  then ([Ip6UnsubscribeMulticastAddress addr, Log Note]
                          @ fst (rta_loop t plen st rest OT_ERROR_NONE),
                        snd (rta_loop t plen st rest OT_ERROR_NONE))
                  else ([Ip6UnsubscribeMulticastAddress addr, Log Warn]
                          @ fst (rta_loop t plen st rest e),
                        snd (rta_loop t plen st rest e))))
         else rta_loop t plen st rest error)
      else (Log Warn # fst (rta_loop t plen st rest error),
            snd (rta_loop t plen st rest error)))"

definition processNetifAddrEvent_linux ::
  "stack_env \<Rightarrow> nl_addr_msg \<Rightarrow> netif_state \<Rightarrow> fate \<times> effect list"
where
  "processNetifAddrEvent_linux st msg s =
     (if \<not> (ifa_index msg = sTunIndex s \<and> ifa_family msg = AF_INET6)
      then (Returns, [Log Info])
      else
        (let r = rta_loop (nlmsg_type msg) (ifa_prefixlen msg) st (rtattrs msg) OT_ERROR_NONE
         in (Returns, fst r @ [Log (if snd r = OT_ERROR_NONE then Info else Warn)])))"

subsection \<open>Address events: \<^verbatim>\<open>processNetifAddrEvent\<close> on the BSDs\<close>

text \<open>The indices of \<^verbatim>\<open>net/route.h\<close>.\<close>

definition RTAX_NETMASK :: nat where
  "RTAX_NETMASK = 2"

definition RTAX_IFA :: nat where
  "RTAX_IFA = 5"

definition RTAX_MAX :: "platform \<Rightarrow> nat" where
  "RTAX_MAX p = (if p = NetBSD then 9 else 8)"

text \<open>
  A routing message of an address type: the type, \<^verbatim>\<open>ifam_index\<close> (or
  \<^verbatim>\<open>ifmam_index\<close>), the bit mask \<^verbatim>\<open>ifam_addrs\<close> and the socket addresses that follow the
  header, in order.
\<close>

record rt_msghdr =
  rtm_type :: msg_type
  rtm_index :: nat
  rtm_addrs :: nat
  rtm_sockaddrs :: "sockaddr list"

text \<open>
  \<^verbatim>\<open>unicastAddressIsSubscribed\<close>: the walk through the stack's list with \<^verbatim>\<open>memcmp\<close>.
\<close>

fun unicastAddressIsSubscribed :: "in6_addr list \<Rightarrow> in6_addr \<Rightarrow> bool" where
  "unicastAddressIsSubscribed [] netAddr = False"
| "unicastAddressIsSubscribed (address # rest) netAddr =
     (if address = netAddr then True else unicastAddressIsSubscribed rest netAddr)"

text \<open>
  The loop over \<open>i < RTAX_MAX\<close> that picks \<open>addr6\<close> and \<open>netmask\<close>. The source does not
  compare \<open>addrbuf\<close> with the end of the message; a bit of the mask with no socket address left
  is \<open>None\<close> here.
\<close>

fun rtax_loop ::
  "nat list \<Rightarrow> nat \<Rightarrow> sockaddr list \<Rightarrow> sockaddr \<Rightarrow> sockaddr \<Rightarrow> (sockaddr \<times> sockaddr) option"
where
  "rtax_loop [] addrmask sas addr6 netmask = Some (addr6, netmask)"
| "rtax_loop (i # is) addrmask sas addr6 netmask =
     (if addrmask AND push_bit i 1 \<noteq> 0 then
        (case sas of
           [] \<Rightarrow> None
         | sa # rest \<Rightarrow>
             rtax_loop is addrmask rest
               (if sa_family sa = AF_INET6 \<and> i = RTAX_IFA then sa else addr6)
               (if sa_family sa = AF_INET6 \<and> i = RTAX_NETMASK then sa else netmask))
      else rtax_loop is addrmask sas addr6 netmask)"

text \<open>
  The part of the function after the addresses have been picked, for an \<open>addr6\<close> of family
  \<^verbatim>\<open>AF_INET6\<close>. \<open>del_res\<close> is the return of the \<^verbatim>\<open>SIOCDIFADDR_IN6\<close> request.
\<close>

definition handle_addr6 ::
  "platform \<Rightarrow> stack_env \<Rightarrow> sys_result \<Rightarrow> msg_type \<Rightarrow> in6_addr \<Rightarrow> in6_addr \<Rightarrow> netif_state
     \<Rightarrow> fate \<times> effect list"
where
  "handle_addr6 p st del_res t a0 netmask s =
     (let is_link_local = IN6_IS_ADDR_LINKLOCAL a0;
          addr = (if is_link_local then a0[3 := 0]
                  else if IN6_IS_ADDR_MC_LINKLOCAL a0 then a0[3 := 0] else a0)
      in if t = RTM_NEWADDR \<or> (has_RTM_NEWMADDR p \<and> t = RTM_NEWMADDR) then
           (if \<not> IsMulticast addr then
              (let mPrefixLength = (of_nat (calculate_prefix_len netmask) :: byte)
               in if unicastAddressIsSubscribed (unicast_addresses st) addr
                  then (Returns, [Log Note])
                  else if is_link_local then
                    (case apply_mask (replicate 16 0xFF) mPrefixLength of
                       None \<Rightarrow> (Undefined, [])
                     | Some prefixmask \<Rightarrow>
                         (Returns,
                          [Ioctl (sIpFd s) (SIOCDIFADDR_IN6 addr prefixmask),
                           Log (if del_res \<noteq> Sys_ok then Warn else Note)]))
                  else
                    (Returns,
                     [Ip6AddUnicastAddress addr (unat mPrefixLength),
                      Log (if add_unicast_res st addr = OT_ERROR_NONE
                              \<or> add_unicast_res st addr = OT_ERROR_ALREADY
                           then Note else Warn)]))
            else
              (Returns,
               [Ip6SubscribeMulticastAddress addr,
                Log (if subscribe_res st addr = OT_ERROR_NONE
                        \<or> subscribe_res st addr = OT_ERROR_ALREADY
                     then Note else Warn)]))
         else if t = RTM_DELADDR \<or> (has_RTM_NEWMADDR p \<and> t = RTM_DELMADDR) then
           (if \<not> IsMulticast addr then
              (Returns,
               [Ip6RemoveUnicastAddress addr,
                Log (if remove_unicast_res st addr = OT_ERROR_NONE
                        \<or> remove_unicast_res st addr = OT_ERROR_NOT_FOUND
                     then Note else Warn)])
            else
              (Returns,
               [Ip6UnsubscribeMulticastAddress addr,
                Log (if unsubscribe_res st addr = OT_ERROR_NONE
                        \<or> unsubscribe_res st addr = OT_ERROR_NOT_FOUND
                     then Note else Warn)]))
         else (Returns, []))"

text \<open>
  \<open>junk_addr\<close> and \<open>junk_mask\<close> are what the local variables \<open>addr6\<close> and \<open>netmask\<close> hold
  beside the family field, which alone is initialised.
\<close>

definition processNetifAddrEvent_bsd ::
  "platform \<Rightarrow> stack_env \<Rightarrow> sys_result \<Rightarrow> in6_addr \<Rightarrow> in6_addr \<Rightarrow> rt_msghdr \<Rightarrow> netif_state
     \<Rightarrow> fate \<times> effect list"
where
  "processNetifAddrEvent_bsd p st del_res junk_addr junk_mask rtm s =
     (let t = rtm_type rtm;
          has_addrs = (t = RTM_NEWADDR \<or> t = RTM_DELADDR
                       \<or> (has_RTM_NEWMADDR p \<and> (t = RTM_NEWMADDR \<or> t = RTM_DELMADDR)));
          addr6_0 = \<lparr>sa_family = AF_UNSPEC, sin6_addr = junk_addr\<rparr>;
          netmask_0 = \<lparr>sa_family = AF_UNSPEC, sin6_addr = junk_mask\<rparr>
      in if has_addrs \<and> rtm_index rtm \<noteq> sTunIndex s then (Returns, [])
         else
           (let addrmask = (if has_addrs then rtm_addrs rtm else 0)
            in case (if addrmask \<noteq> 0
                     then rtax_loop [0..<RTAX_MAX p] addrmask (rtm_sockaddrs rtm) addr6_0 netmask_0
                     else Some (addr6_0, netmask_0)) of
                 None \<Rightarrow> (Undefined, [])
               | Some (addr6, netmask) \<Rightarrow>
                   if sa_family addr6 = AF_INET6
                   then handle_addr6 p st del_res t (sin6_addr addr6) (sin6_addr netmask) s
                   else (Returns, [])))"

subsection \<open>Concrete inputs\<close>

text \<open>An initialised module: instance 1, the four descriptors open, the tunnel \<open>wpan0\<close>.\<close>

definition example_state :: netif_state where
  "example_state =
     \<lparr>sInstance = 1, sTunFd = 3, sIpFd = 4, sNetlinkFd = 5, sMLDMonitorFd = 6,
      sTunIndex = 2, sTunName = ''wpan0''\<rparr>"

text \<open>The kernel interface is down while the stack has IPv6 enabled.\<close>

definition link_down_stack_up :: world where
  "link_down_stack_up = \<lparr>if_flags = 0, ip6_enabled = True\<rparr>"

text \<open>
  \<^verbatim>\<open>PF_INET6\<close> in \<^verbatim>\<open>sys/socket.h\<close> of each system (the headers are not part of the
  repository): 10 on Linux, 30 on macOS, 24 on NetBSD, 28 on FreeBSD.
\<close>

fun PF_INET6_of :: "platform \<Rightarrow> nat" where
  "PF_INET6_of Linux = 10"
| "PF_INET6_of Apple = 30"
| "PF_INET6_of NetBSD = 24"
| "PF_INET6_of FreeBSD = 28"

text \<open>A stack that accepts every call and has no unicast address yet.\<close>

definition accepting_stack :: stack_env where
  "accepting_stack =
     \<lparr>add_unicast_res = (\<lambda>_. OT_ERROR_NONE), remove_unicast_res = (\<lambda>_. OT_ERROR_NONE),
      subscribe_res = (\<lambda>_. OT_ERROR_NONE), unsubscribe_res = (\<lambda>_. OT_ERROR_NONE),
      unicast_addresses = []\<rparr>"

text \<open>The addresses \<open>fe80::abcd\<close>, \<open>ff03::abcd\<close> and \<open>fe80::1\<close>.\<close>

definition addr_fe80_abcd :: in6_addr where
  "addr_fe80_abcd = [0xfe, 0x80, 0, 0, 0, 0, 0, 0, 0, 0, 0, 0, 0, 0, 0xab, 0xcd]"

definition addr_ff03_abcd :: in6_addr where
  "addr_ff03_abcd = [0xff, 0x03, 0, 0, 0, 0, 0, 0, 0, 0, 0, 0, 0, 0, 0xab, 0xcd]"

definition addr_fe80_1 :: in6_addr where
  "addr_fe80_1 = [0xfe, 0x80, 0, 0, 0, 0, 0, 0, 0, 0, 0, 0, 0, 0, 0, 1]"

text \<open>The interface list of \<^verbatim>\<open>getifaddrs\<close>: the loopback and the tunnel with \<open>fe80::1\<close>.\<close>

definition example_ifaddrs :: "ifaddrs list" where
  "example_ifaddrs =
     [\<lparr>ifa_name = ''lo'', ifa_addr = None\<rparr>,
      \<lparr>ifa_name = ''wpan0'', ifa_addr = Some \<lparr>sa_family = AF_INET6, sin6_addr = addr_fe80_1\<rparr>\<rparr>]"

text \<open>
  What the handling of one record of a report comes to in the code: type 4 subscribes, type 3
  unsubscribes, any other type does nothing.
\<close>

definition record_action :: "mld_record \<Rightarrow> effect list" where
  "record_action r =
     (if record_type r = 4 then [Ip6SubscribeMulticastAddress (multicast_address r)]
      else if record_type r = 3 then [Ip6UnsubscribeMulticastAddress (multicast_address r)]
      else [])"

text \<open>
  The kernel announces the new address \<open>fe80::abcd/64\<close> on the tunnel: as a netlink message
  with one \<^verbatim>\<open>IFA_ADDRESS\<close> attribute, and as a routing message whose mask has the bits of
  \<^verbatim>\<open>RTAX_NETMASK\<close> and \<^verbatim>\<open>RTAX_IFA\<close>.
\<close>

definition example_nl_newaddr :: nl_addr_msg where
  "example_nl_newaddr =
     \<lparr>nlmsg_type = RTM_NEWADDR, ifa_family = AF_INET6, ifa_prefixlen = 64, ifa_index = 2,
      rtattrs = [(IFA_ADDRESS, addr_fe80_abcd)]\<rparr>"

definition example_rt_newaddr :: rt_msghdr where
  "example_rt_newaddr =
     \<lparr>rtm_type = RTM_NEWADDR, rtm_index = 2, rtm_addrs = 0x24,
      rtm_sockaddrs =
        [\<lparr>sa_family = AF_INET6, sin6_addr = netmask_of 64\<rparr>,
         \<lparr>sa_family = AF_INET6, sin6_addr = addr_fe80_abcd\<rparr>]\<rparr>"

section \<open>Properties\<close>

subsection \<open>Prefix length of a netmask\<close>

lemma count_bits_loop_acc: "count_bits_loop j b r = r + count_bits_loop j b 0"
proof (induction j arbitrary: r)
  case 0
  show ?case by simp
next
  case (Suc j)
  from Suc [of "r + 1"] Suc [of 1] show ?case by simp
qed

lemma partial_octet_closed:
  "\<forall>n \<in> set [0..<8]. byte_of_bits (replicate n True @ replicate (8 - n) False) \<noteq> 0xFF
       \<and> count_bits_loop 8 (byte_of_bits (replicate n True @ replicate (8 - n) False)) 0 = n"
  by code_simp

lemma partial_octet:
  assumes "n < 8"
  shows "byte_of_bits (replicate n True @ replicate (8 - n) False) \<noteq> 0xFF
       \<and> count_bits_loop 8 (byte_of_bits (replicate n True @ replicate (8 - n) False)) r = r + n"
proof -
  from assms have "n \<in> set [0..<8]" by simp
  with partial_octet_closed
  have "byte_of_bits (replicate n True @ replicate (8 - n) False) \<noteq> 0xFF
       \<and> count_bits_loop 8 (byte_of_bits (replicate n True @ replicate (8 - n) False)) 0 = n"
    by blast
  then show ?thesis
    using count_bits_loop_acc [of 8 _ r] by simp
qed

lemma full_octet: "byte_of_bits (replicate 8 True) = 0xFF"
  by code_simp

lemma prefix_len_loop_pack:
  "8 * k = n + m \<Longrightarrow>
   prefix_len_loop (pack_octets k (replicate n True @ replicate m False)) r = r + n"
proof (induction k arbitrary: n m r)
  case 0
  then show ?case by simp
next
  case (Suc k)
  show ?case
  proof (cases "8 \<le> n")
    case True
    then have t: "take 8 (replicate n True @ replicate m False) = replicate 8 True"
      by (simp add: min_def)
    from True have d: "drop 8 (replicate n True @ replicate m False)
        = replicate (n - 8) True @ replicate m False"
      by simp
    from Suc.prems True have "8 * k = (n - 8) + m" by simp
    from Suc.IH [OF this, of "r + 8"] show ?thesis
      using True by (simp only: pack_octets.simps t d full_octet prefix_len_loop.simps) simp
  next
    case False
    with Suc.prems have "8 - n \<le> m" by arith
    with False have t: "take 8 (replicate n True @ replicate m False)
        = replicate n True @ replicate (8 - n) False"
      by (simp add: min_def)
    from False have "n < 8" by simp
    from partial_octet [OF this, of r] show ?thesis
      by (simp only: pack_octets.simps t prefix_len_loop.simps) simp
  qed
qed

text \<open>
  Claim C7. For every \<open>N\<close> from 0 to 128, \<^verbatim>\<open>calculate_prefix_len\<close> applied to the 128-bit
  netmask of \<open>N\<close> leading one-bits followed by \<open>128 - N\<close> zero-bits returns \<open>N\<close>.
\<close>

theorem calculate_prefix_len_netmask:
  "n \<le> 128 \<Longrightarrow> calculate_prefix_len (netmask_of n) = n"
  using prefix_len_loop_pack [of 16 n "128 - n" 0]
  by (simp add: calculate_prefix_len_def netmask_of_def)

theorem calculate_prefix_len_netmask_witness:
  "(61 :: nat) \<le> 128 \<and> calculate_prefix_len (netmask_of 61) = 61"
  using calculate_prefix_len_netmask [of 61] by simp

subsection \<open>Synthesis of the prefix mask\<close>

lemma byte_of_zero_bits: "byte_of_bits (replicate i False) = 0"
proof -
  have "foldl (\<lambda>w b. 2 * w + (if b then 1 else 0)) (0::byte) (replicate i False) = 0"
    by (induction i) simp_all
  then show ?thesis by (simp add: byte_of_bits_def)
qed

lemma pack_zero_bits: "pack_octets j (replicate i False) = replicate j 0"
proof (induction j arbitrary: i)
  case 0
  show ?case by simp
next
  case (Suc j)
  show ?case by (simp add: Suc byte_of_zero_bits)
qed

lemma pack_full_octets:
  "q \<le> k \<Longrightarrow> pack_octets k (replicate (8 * q) True @ bs)
     = replicate q 0xFF @ pack_octets (k - q) bs"
proof (induction q arbitrary: k)
  case 0
  show ?case by simp
next
  case (Suc q)
  then obtain k' where k: "k = Suc k'" and le: "q \<le> k'" by (cases k) auto
  have t: "take 8 (replicate (8 * Suc q) True @ bs) = replicate 8 True"
    by (simp add: min_def)
  have d: "drop 8 (replicate (8 * Suc q) True @ bs) = replicate (8 * q) True @ bs"
    by simp
  show ?case
    unfolding k pack_octets.simps t d full_octet Suc.IH [OF le] by simp
qed

lemma top_bits_closed:
  "\<forall>r \<in> set [1..<8]. byte_of_bits (replicate r True @ replicate (8 - r) False)
      = NOT (drop_bit r (0xFF :: byte))"
  by code_simp

lemma top_bits:
  assumes "0 < r" "r < 8"
  shows "byte_of_bits (replicate r True @ replicate (8 - r) False) = NOT (drop_bit r (0xFF :: byte))"
proof -
  from assms have "r \<in> set [1..<8]" by simp
  with top_bits_closed show ?thesis by blast
qed

lemma netmask_of_form:
  assumes "n \<le> 128"
  shows "netmask_of n = replicate (n div 8) 0xFF
           @ (if n mod 8 \<noteq> 0
              then NOT (drop_bit (n mod 8) (0xFF :: byte)) # replicate (15 - n div 8) 0
              else replicate (16 - n div 8) 0)"
proof -
  define q r where "q = n div 8" and "r = n mod 8"
  have n: "n = 8 * q + r" and r: "r < 8" by (simp_all add: q_def r_def)
  from assms n have q: "q \<le> 16" by simp
  have split: "replicate n True @ replicate (128 - n) False
      = replicate (8 * q) True @ (replicate r True @ replicate (128 - n) False)"
    by (simp add: n replicate_add)
  have main: "netmask_of n = replicate q 0xFF
      @ pack_octets (16 - q) (replicate r True @ replicate (128 - n) False)"
    unfolding netmask_of_def split by (rule pack_full_octets [OF q])
  show ?thesis
  proof (cases "r = 0")
    case True
    with main show ?thesis
      by (simp add: pack_zero_bits q_def [symmetric] r_def [symmetric])
  next
    case False
    with n assms r have "q < 16" by arith
    then obtain j where j: "16 - q = Suc j" and j15: "j = 15 - q" by (cases "16 - q") auto
    from n assms r \<open>q < 16\<close> have m: "8 - r \<le> 128 - n" by arith
    then have t: "take 8 (replicate r True @ replicate (128 - n) False)
        = replicate r True @ replicate (8 - r) False"
      using r by (simp add: min_def)
    have d: "drop 8 (replicate r True @ replicate (128 - n) False)
        = replicate (128 - n - (8 - r)) False"
      using r by simp
    from False r have "byte_of_bits (replicate r True @ replicate (8 - r) False)
        = NOT (drop_bit r (0xFF :: byte))"
      by (simp add: top_bits)
    with main False show ?thesis
      unfolding j pack_octets.simps t d pack_zero_bits
      by (simp add: q_def [symmetric] r_def [symmetric] j15)
  qed
qed

lemma all_ones_and: "(0xFF :: byte) AND v = v"
proof -
  have "(0xFF :: byte) = - 1" by simp
  then show ?thesis by (simp only: and.left_neutral)
qed

lemma replicate_Suc_update: "(replicate (Suc q) x)[q := v] = replicate q x @ [v]"
  by (induction q) simp_all

lemma apply_mask_ones_le:
  assumes "n \<le> 128" and "unat m = n"
  shows "apply_mask (replicate 16 0xFF) m = Some (netmask_of n)"
proof -
  define q r where "q = n div 8" and "r = n mod 8"
  have n: "n = 8 * q + r" and r: "r < 8" by (simp_all add: q_def r_def)
  show ?thesis
  proof (cases "r = 0")
    case True
    with n assms have q: "(n + 7) div 8 = q" "q \<le> 16" by simp_all
    have "apply_mask (replicate 16 0xFF) m = Some (replicate q 0xFF @ replicate (16 - q) 0)"
      using assms q True
      by (simp add: apply_mask_def memset_zero_def r_def [symmetric])
    moreover have "netmask_of n = replicate q 0xFF @ replicate (16 - q) 0"
      using netmask_of_form [OF assms(1)] True by (simp add: q_def [symmetric] r_def [symmetric])
    ultimately show ?thesis by simp
  next
    case False
    with n assms r have q: "(n + 7) div 8 = Suc q" "q < 16" by arith+
    have upd: "(replicate (Suc q) (0xFF::byte) @ replicate (15 - q) 0)[q := v]
        = replicate q 0xFF @ v # replicate (15 - q) 0" for v
      by (simp add: list_update_append replicate_Suc_update del: replicate_Suc replicate.simps)
    have "apply_mask (replicate 16 0xFF) m
        = Some (replicate q 0xFF @ NOT (drop_bit r (0xFF :: byte)) # replicate (15 - q) 0)"
      using assms q False upd [of "NOT (drop_bit r (0xFF :: byte))"]
      by (simp add: apply_mask_def memset_zero_def and_assign_def all_ones_and
            r_def [symmetric] q_def [symmetric] nth_append del: replicate_Suc)
    moreover have "netmask_of n
        = replicate q 0xFF @ NOT (drop_bit r (0xFF :: byte)) # replicate (15 - q) 0"
      using netmask_of_form [OF assms(1)] False by (simp add: q_def [symmetric] r_def [symmetric])
    ultimately show ?thesis by simp
  qed
qed

lemma apply_mask_clamp: "128 < unat m \<Longrightarrow> apply_mask a m = apply_mask a 128"
  by (simp add: apply_mask_def)

lemma apply_mask_ones:
  "apply_mask (replicate 16 0xFF) m = Some (netmask_of (min (unat m) 128))"
proof (cases "unat m \<le> 128")
  case True
  then show ?thesis using apply_mask_ones_le [of "unat m" m] by (simp add: min_def)
next
  case False
  then have "apply_mask (replicate 16 0xFF) m = apply_mask (replicate 16 0xFF) 128"
    by (simp add: apply_mask_clamp)
  also have "\<dots> = Some (netmask_of 128)"
    by (rule apply_mask_ones_le) simp_all
  finally show ?thesis using False by (simp add: min_def)
qed

lemma apply_mask_in_bounds:
  "length a = 16 \<Longrightarrow> \<exists>a'. apply_mask a m = Some a' \<and> length a' = 16"
  by (auto simp: apply_mask_def memset_zero_def and_assign_def Let_def; arith)

text \<open>
  Claim C10. \<^verbatim>\<open>apply_mask\<close> is total over its mask argument: a mask above 128 gives what
  128 gives; on a 16-octet address no access leaves the array (the model answers \<open>None\<close> for
  an access outside it); and on the all-ones address, which is what the prefix-mask synthesis
  passes, the result is the netmask of as many leading one-bits as the clamped mask says,
  followed by zero-bits.
\<close>

theorem apply_mask_total:
  "(128 < unat m \<longrightarrow> apply_mask a m = apply_mask a 128)
   \<and> (length a = 16 \<longrightarrow> (\<exists>a'. apply_mask a m = Some a' \<and> length a' = 16))
   \<and> apply_mask (replicate 16 0xFF) m = Some (netmask_of (min (unat m) 128))"
  using apply_mask_clamp [of m a] apply_mask_in_bounds [of a m] apply_mask_ones [of m]
  by blast

theorem apply_mask_total_witness:
  "128 < unat (200 :: byte)
   \<and> apply_mask (replicate 16 0xAB) 200 = apply_mask (replicate 16 0xAB) 128
   \<and> length (replicate 16 (0xAB :: byte)) = 16
   \<and> (\<exists>a'. apply_mask (replicate 16 0xAB) 200 = Some a' \<and> length a' = 16)
   \<and> apply_mask (replicate 16 0xFF) 200 = Some (netmask_of (min (unat (200 :: byte)) 128))"
proof -
  have gt: "128 < unat (200 :: byte)" by simp
  have len: "length (replicate 16 (0xAB :: byte)) = 16" by simp
  from apply_mask_total [of 200 "replicate 16 0xAB"] gt len show ?thesis by blast
qed

subsection \<open>Teardown\<close>

lemma deinit_state:
  "snd (platformNetifDeinit p r s)
     = s\<lparr>sTunFd := - 1, sIpFd := - 1, sNetlinkFd := - 1,
         sMLDMonitorFd := (if OPENTHREAD_POSIX_USE_MLD_MONITOR p then - 1 else sMLDMonitorFd s),
         sTunIndex := 0\<rparr>"
  by (simp add: platformNetifDeinit_def close_tun_def close_ip_def close_netlink_def
        close_mld_def split_def Let_def)

lemma deinit_closes:
  "filter is_close (fst (platformNetifDeinit p r s))
     = map Close (filter (\<lambda>fd. fd \<noteq> - 1)
         ([sTunFd s, sIpFd s, sNetlinkFd s]
          @ (if OPENTHREAD_POSIX_USE_MLD_MONITOR p then [sMLDMonitorFd s] else [])))"
  by (simp add: platformNetifDeinit_def close_tun_def close_ip_def close_netlink_def
        close_mld_def split_def Let_def destroyTunnel_def)

lemma deinit_closed_nothing:
  assumes "sTunFd s = - 1" "sIpFd s = - 1" "sNetlinkFd s = - 1"
    "OPENTHREAD_POSIX_USE_MLD_MONITOR p \<Longrightarrow> sMLDMonitorFd s = - 1" "sTunIndex s = 0"
  shows "platformNetifDeinit p r s = ([], s)"
  using assms
  by (auto simp add: platformNetifDeinit_def close_tun_def close_ip_def close_netlink_def
        close_mld_def split_def Let_def)

text \<open>
  Claim C9. \<^verbatim>\<open>platformNetifDeinit\<close> closes each of the tunnel, ip, netlink and (where the
  MLD monitor exists) MLD descriptors exactly when it is not -1, once, and leaves every one of
  them -1 and \<open>sTunIndex\<close> 0, whatever subset had been opened; a second call performs no
  effect at all and leaves the state as it is.
\<close>

theorem platformNetifDeinit_idempotent:
  "filter is_close (fst (platformNetifDeinit p r s))
     = map Close (filter (\<lambda>fd. fd \<noteq> - 1)
         ([sTunFd s, sIpFd s, sNetlinkFd s]
          @ (if OPENTHREAD_POSIX_USE_MLD_MONITOR p then [sMLDMonitorFd s] else [])))
   \<and> snd (platformNetifDeinit p r s)
     = s\<lparr>sTunFd := - 1, sIpFd := - 1, sNetlinkFd := - 1,
         sMLDMonitorFd := (if OPENTHREAD_POSIX_USE_MLD_MONITOR p then - 1 else sMLDMonitorFd s),
         sTunIndex := 0\<rparr>
   \<and> platformNetifDeinit p r' (snd (platformNetifDeinit p r s))
     = ([], snd (platformNetifDeinit p r s))"
proof -
  have "platformNetifDeinit p r' (snd (platformNetifDeinit p r s))
     = ([], snd (platformNetifDeinit p r s))"
    by (rule deinit_closed_nothing) (simp_all add: deinit_state)
  then show ?thesis
    by (simp only: deinit_closes deinit_state simp_thms)
qed

subsection \<open>Link reconciliation\<close>

lemma UpdateLink_set_only_if_differ:
  "filter is_set_flags (fst (snd (UpdateLink g so c s w))) \<noteq> []
   \<Longrightarrow> (if_flags w AND IFF_UP = IFF_UP) \<noteq> ip6_enabled w"
  by (auto simp: UpdateLink_def Let_def split: if_splits)

lemma UpdateLink_ip6: "ip6_enabled (snd (snd (UpdateLink g so c s w))) = ip6_enabled w"
  by (simp add: UpdateLink_def Let_def)

lemma IFF_UP_or: "(f OR IFF_UP) AND IFF_UP = IFF_UP"
  by (simp add: IFF_UP_def bit_eq_iff bit_simps)

lemma IFF_UP_and_not: "(f AND NOT IFF_UP) AND IFF_UP \<noteq> IFF_UP"
  by (simp add: IFF_UP_def and.assoc)

lemma UpdateLink_converged:
  assumes "so" "filter is_set_flags (fst (snd (UpdateLink g so c s w))) \<noteq> []"
  shows "(if_flags (snd (snd (UpdateLink g so c s w))) AND IFF_UP = IFF_UP) = ip6_enabled w"
  using assms
  by (auto simp: UpdateLink_def Let_def IFF_UP_or IFF_UP_and_not split: if_splits)

lemma UpdateLink_set_count:
  "length (filter is_set_flags (fst (snd (UpdateLink g so c s w)))) \<le> 1"
  by (simp add: UpdateLink_def Let_def)

lemma UpdateLink_twice:
  assumes "so1"
  shows "length (filter is_set_flags
           (fst (snd (UpdateLink g1 so1 c s w))
            @ fst (snd (UpdateLink g2 so2 c s (snd (snd (UpdateLink g1 so1 c s w))))))) \<le> 1"
proof (cases "filter is_set_flags (fst (snd (UpdateLink g1 so1 c s w))) = []")
  case True
  then show ?thesis using UpdateLink_set_count [of g2 so2 c s] by simp
next
  case False
  let ?w1 = "snd (snd (UpdateLink g1 so1 c s w))"
  from UpdateLink_converged [OF assms False]
  have "(if_flags ?w1 AND IFF_UP = IFF_UP) = ip6_enabled ?w1"
    by (simp add: UpdateLink_ip6)
  with UpdateLink_set_only_if_differ [of g2 so2 c s ?w1]
  have "filter is_set_flags (fst (snd (UpdateLink g2 so2 c s ?w1))) = []"
    by blast
  then show ?thesis using UpdateLink_set_count [of g1 so1 c s w] by simp
qed

text \<open>
  Claim C1 asks that the state-change callback reconcile the link exactly when the
  notification mask contains the network-interface-state bit. The code tests
  \<^verbatim>\<open>OT_CHANGED_THREAD_NETIF_STATE | aFlags\<close>, which is never zero: for every mask the callback
  is \<^verbatim>\<open>UpdateLink\<close>. At the mask 1, which does not contain the bit \<open>0x1000000\<close>, the code
  issues \<^verbatim>\<open>SIOCSIFFLAGS\<close>, where the intended test would do nothing.
\<close>

theorem processStateChange_ignores_mask:
  "OT_CHANGED_THREAD_NETIF_STATE \<noteq> 0
   \<Longrightarrow> processStateChange OT_CHANGED_THREAD_NETIF_STATE get_ok set_ok aFlags aContext s w
       = UpdateLink get_ok set_ok aContext s w"
proof -
  assume "OT_CHANGED_THREAD_NETIF_STATE \<noteq> 0"
  then have "OT_CHANGED_THREAD_NETIF_STATE OR aFlags \<noteq> 0" by (simp add: or_eq_0_iff)
  then show ?thesis by (simp add: processStateChange_def)
qed

theorem processStateChange_ignores_mask_witness:
  "(0x1000000 :: 32 word) \<noteq> 0 \<and> (0x1000000 :: 32 word) AND 1 = 0
   \<and> processStateChange 0x1000000 True True 1 1 example_state link_down_stack_up
     = (Returns,
        [Ioctl 4 SIOCGIFFLAGS, Log Note, Ioctl 4 (SIOCSIFFLAGS 1), Log Info],
        \<lparr>if_flags = 1, ip6_enabled = True\<rparr>)
   \<and> intended_processStateChange 0x1000000 True True 1 1 example_state link_down_stack_up
     = (Returns, [], link_down_stack_up)"
  using processStateChange_ignores_mask
          [of "0x1000000" True True 1 1 example_state link_down_stack_up]
  by (simp add: UpdateLink_def intended_processStateChange_def example_state_def
        link_down_stack_up_def IFF_UP_def)

text \<open>
  Claim C8, as it stands, fails when the kernel refuses the request: the interface stays as
  it was and the next callback asks again. Here the kernel is down and the stack up, the mask
  contains the bit, and the first \<^verbatim>\<open>SIOCSIFFLAGS\<close> returns -1: the two callbacks issue two.
\<close>

theorem link_idempotence_counterexample:
  "length (filter is_set_flags
     (fst (snd (processStateChange 0x1000000 True False 0x1000000 1
                  example_state link_down_stack_up))
      @ fst (snd (processStateChange 0x1000000 True True 0x1000000 1 example_state
                   (snd (snd (processStateChange 0x1000000 True False 0x1000000 1
                                example_state link_down_stack_up))))))) = 2"
  by (simp add: processStateChange_def UpdateLink_def example_state_def
        link_down_stack_up_def IFF_UP_def)

lemma UpdateLink_retries:
  assumes "\<not> so1"
    and "filter is_set_flags (fst (snd (UpdateLink g1 so1 c s w))) \<noteq> []"
    and "g2"
  shows "snd (snd (UpdateLink g1 so1 c s w)) = w"
    and "length (filter is_set_flags (fst (snd (UpdateLink g1 so1 c s w)))) = 1"
    and "length (filter is_set_flags (fst (snd (UpdateLink g2 so2 c s w)))) = 1"
  using assms by (auto simp: UpdateLink_def Let_def split: if_splits)

text \<open>
  Claim C8, amended. \<^verbatim>\<open>UpdateLink\<close> issues \<^verbatim>\<open>SIOCSIFFLAGS\<close> only when the kernel's
  \<^verbatim>\<open>IFF_UP\<close> differs from the stack's ip6-enabled state; and two consecutive state-change
  callbacks, with the stack in the same state and the kernel flags left as the first callback
  left them, issue at most one \<^verbatim>\<open>SIOCSIFFLAGS\<close> provided the first callback's request, if it
  made one, succeeded. When the first callback's request failed and the \<^verbatim>\<open>SIOCGIFFLAGS\<close> of
  the second callback succeeds, the second callback issues the request again, two in all.
\<close>

theorem link_idempotence:
  "(filter is_set_flags (fst (snd (UpdateLink g1 so1 c s w))) \<noteq> []
      \<longrightarrow> (if_flags w AND IFF_UP = IFF_UP) \<noteq> ip6_enabled w)
   \<and> (so1 \<longrightarrow>
        length (filter is_set_flags
           (fst (snd (processStateChange B g1 so1 fl1 c s w))
            @ fst (snd (processStateChange B g2 so2 fl2 c s
                         (snd (snd (processStateChange B g1 so1 fl1 c s w))))))) \<le> 1)
   \<and> (B \<noteq> 0 \<and> \<not> so1 \<and> g2
        \<and> filter is_set_flags (fst (snd (processStateChange B g1 so1 fl1 c s w))) \<noteq> []
      \<longrightarrow>
        length (filter is_set_flags
           (fst (snd (processStateChange B g1 so1 fl1 c s w))
            @ fst (snd (processStateChange B g2 so2 fl2 c s
                         (snd (snd (processStateChange B g1 so1 fl1 c s w))))))) = 2)"
proof (intro conjI impI)
  assume "filter is_set_flags (fst (snd (UpdateLink g1 so1 c s w))) \<noteq> []"
  then show "(if_flags w AND IFF_UP = IFF_UP) \<noteq> ip6_enabled w"
    by (rule UpdateLink_set_only_if_differ)
next
  assume so1
  show "length (filter is_set_flags
           (fst (snd (processStateChange B g1 so1 fl1 c s w))
            @ fst (snd (processStateChange B g2 so2 fl2 c s
                         (snd (snd (processStateChange B g1 so1 fl1 c s w))))))) \<le> 1"
  proof (cases "B OR fl1 = 0")
    case True
    then have "processStateChange B g1 so1 fl1 c s w = (Returns, [], w)"
      by (simp add: processStateChange_def)
    then show ?thesis
      using UpdateLink_set_count [of g2 so2 c s w]
      by (simp add: processStateChange_def)
  next
    case nz1: False
    show ?thesis
    proof (cases "B OR fl2 = 0")
      case True
      then show ?thesis
        using UpdateLink_set_count [of g1 so1 c s w] nz1
        by (simp add: processStateChange_def)
    next
      case False
      then show ?thesis
        using UpdateLink_twice [OF \<open>so1\<close>, of g1 c s w g2 so2] nz1
        by (simp add: processStateChange_def)
    qed
  qed
next
  assume a: "B \<noteq> 0 \<and> \<not> so1 \<and> g2
        \<and> filter is_set_flags (fst (snd (processStateChange B g1 so1 fl1 c s w))) \<noteq> []"
  then have nz: "B OR fl1 \<noteq> 0" "B OR fl2 \<noteq> 0" by (simp_all add: or_eq_0_iff)
  then have p1: "processStateChange B g1 so1 fl1 c s w = UpdateLink g1 so1 c s w"
    and p2: "\<And>w'. processStateChange B g2 so2 fl2 c s w' = UpdateLink g2 so2 c s w'"
    by (simp_all add: processStateChange_def)
  have first: "filter is_set_flags (fst (snd (UpdateLink g1 so1 c s w))) \<noteq> []"
    using a unfolding p1 by blast
  from a have "\<not> so1" and g2 by simp_all
  note r = UpdateLink_retries [OF \<open>\<not> so1\<close> first \<open>g2\<close>]
  show "length (filter is_set_flags
           (fst (snd (processStateChange B g1 so1 fl1 c s w))
            @ fst (snd (processStateChange B g2 so2 fl2 c s
                         (snd (snd (processStateChange B g1 so1 fl1 c s w))))))) = 2"
    unfolding p1 p2 r(1) using r(2) r(3) by simp
qed

theorem link_idempotence_witness:
  "filter is_set_flags (fst (snd (UpdateLink True True 1 example_state link_down_stack_up))) \<noteq> []
   \<and> (if_flags link_down_stack_up AND IFF_UP = IFF_UP) \<noteq> ip6_enabled link_down_stack_up
   \<and> length (filter is_set_flags
       (fst (snd (processStateChange 0x1000000 True True 0x1000000 1
                    example_state link_down_stack_up))
        @ fst (snd (processStateChange 0x1000000 True True 0x1000000 1 example_state
                     (snd (snd (processStateChange 0x1000000 True True 0x1000000 1
                                  example_state link_down_stack_up))))))) \<le> 1
   \<and> (0x1000000 :: 32 word) \<noteq> 0
   \<and> filter is_set_flags
       (fst (snd (processStateChange 0x1000000 True False 0x1000000 1
                    example_state link_down_stack_up))) \<noteq> []
   \<and> length (filter is_set_flags
       (fst (snd (processStateChange 0x1000000 True False 0x1000000 1
                    example_state link_down_stack_up))
        @ fst (snd (processStateChange 0x1000000 True False 0x1000000 1 example_state
                     (snd (snd (processStateChange 0x1000000 True False 0x1000000 1
                                  example_state link_down_stack_up))))))) = 2"
proof -
  have issued: "filter is_set_flags
       (fst (snd (processStateChange 0x1000000 True False 0x1000000 1
                    example_state link_down_stack_up))) \<noteq> []"
    by (simp add: processStateChange_def UpdateLink_def example_state_def
          link_down_stack_up_def IFF_UP_def)
  have nz: "(0x1000000 :: 32 word) \<noteq> 0" by simp
  have ok: "filter is_set_flags
       (fst (snd (UpdateLink True True 1 example_state link_down_stack_up))) \<noteq> []"
    by (simp add: UpdateLink_def example_state_def link_down_stack_up_def IFF_UP_def)
  from link_idempotence [of True True 1 example_state link_down_stack_up
          "0x1000000" "0x1000000" True True "0x1000000"]
    link_idempotence [of True False 1 example_state link_down_stack_up
          "0x1000000" "0x1000000" True False "0x1000000"]
    issued nz ok
  show ?thesis by blast
qed

subsection \<open>The packet shuttle\<close>

lemma lo_octet: "(of_nat ((n::nat) AND 0xFF) :: byte) = of_nat n"
proof -
  have "n AND (0xFF::nat) = take_bit 8 n"
    by (simp add: take_bit_eq_mask mask_eq_exp_minus_1)
  then have "(of_nat (n AND 0xFF) :: byte) = of_nat (take_bit 8 n)" by simp
  also have "\<dots> = of_nat n"
    by (simp add: of_nat_take_bit take_bit_word_eq_self)
  finally show ?thesis .
qed

lemma hi_octet_zero: "(of_nat (push_bit 8 (n::nat)) :: byte) = 0"
proof -
  have "(of_nat (push_bit 8 n) :: byte) = of_nat n * 256" by (simp add: push_bit_eq_mult)
  also have "(256 :: byte) = 0" by simp
  finally show ?thesis by simp
qed

text \<open>
  Claim C4, as it stands, fails on every platform that has the header: the fourth octet is the
  low octet of that system's \<^verbatim>\<open>PF_INET6\<close>, and \<open>0x0A\<close> is the value of Linux, where no
  header is written. On macOS the datagram \<open>60 00 00 00\<close> goes out behind \<open>00 00 00 1E\<close>.
\<close>

theorem af_prefix_counterexample:
  "is_bsd Apple
   \<and> kernel_calls (snd (processReceive Apple (PF_INET6_of Apple) [0x60, 0, 0, 0] 1 8 example_state))
       = [Write 3 [0x00, 0x00, 0x00, 0x1E, 0x60, 0, 0, 0]]
   \<and> [Write 3 [0x00, 0x00, 0x00, 0x1E, 0x60, 0, 0, 0]]
       \<noteq> [Write 3 ([0x00, 0x00, 0x00, 0x0A] @ [0x60, 0, 0, 0])]"
  by (simp add: processReceive_def Let_def kernel_calls_def example_state_def kMaxIp6Size_def)

text \<open>
  Claim C4, amended. On a platform with the address-family header, when the tunnel descriptor
  is positive and the payload \<open>P\<close> has at most 1536 octets, the one system call of
  \<^verbatim>\<open>processReceive\<close> is a \<^verbatim>\<open>write\<close> to the tunnel of the octets 0, 0, 0 and the low octet
  of the platform's \<^verbatim>\<open>PF_INET6\<close>, followed by \<open>P\<close>.
\<close>

theorem af_prefix_written:
  assumes "is_bsd p" "sInstance s = aContext" "0 < sTunFd s" "length P \<le> kMaxIp6Size"
  shows "kernel_calls (snd (processReceive p PF_INET6 P aContext write_res s))
           = [Write (sTunFd s) ([0, 0, 0, of_nat PF_INET6] @ P)]"
proof -
  from assms(4) have "(length P + 4) mod 65536 = length P + 4"
    by (simp add: kMaxIp6Size_def)
  with assms show ?thesis
    by (simp add: processReceive_def Let_def kernel_calls_def hi_octet_zero lo_octet min_def
          del: push_bit_of_0)
qed

theorem af_prefix_written_witness:
  "is_bsd FreeBSD \<and> sInstance example_state = 1 \<and> 0 < sTunFd example_state
   \<and> length [0x60 :: byte, 0, 0, 0] \<le> kMaxIp6Size
   \<and> kernel_calls (snd (processReceive FreeBSD 28 [0x60, 0, 0, 0] 1 8 example_state))
       = [Write (sTunFd example_state) ([0, 0, 0, 28] @ [0x60, 0, 0, 0])]"
proof -
  have h: "is_bsd FreeBSD" "sInstance example_state = 1" "0 < sTunFd example_state"
    "length [0x60 :: byte, 0, 0, 0] \<le> kMaxIp6Size"
    by (simp_all add: example_state_def kMaxIp6Size_def)
  from af_prefix_written [OF h, of 28 8] h show ?thesis by simp
qed

text \<open>
  Claim C6, as it stands, fails when the stack has no buffer: \<^verbatim>\<open>otIp6NewMessage\<close> returns
  \<^verbatim>\<open>NULL\<close>, the datagram that was read is dropped and \<^verbatim>\<open>otIp6Send\<close> is not called.
\<close>

theorem tun_read_counterexample:
  "processTransmit Apple 1 (Some [0, 0, 0, 0x1E, 0x60, 0, 0, 0]) False
     OT_ERROR_NONE OT_ERROR_NONE example_state = (Returns, [Log Warn])
   \<and> stack_calls (snd (processTransmit Apple 1 (Some [0, 0, 0, 0x1E, 0x60, 0, 0, 0]) False
                         OT_ERROR_NONE OT_ERROR_NONE example_state)) = []"
  by (simp add: processTransmit_def Let_def stack_calls_def kMaxIp6Size_def example_state_def)

text \<open>
  Claim C6, amended. For every datagram read from the tunnel (a read of at least one octet):
  when the stack provides a message and accepts the append, \<^verbatim>\<open>otIp6Send\<close> is called exactly
  once, with the octets read on a platform without the header, and with the bare payload \<open>P\<close>
  on a platform with the header when the octets read are a header \<open>00 00 h2 h3\<close> followed by
  \<open>P\<close> (the header of the expected family is one of these); when the stack provides no
  message or refuses the append, the call returns and \<^verbatim>\<open>otIp6Send\<close> is not called. The
  first conjunct gives the octets sent in every case.
\<close>

theorem tun_read_sent_once:
  assumes "sInstance s = aInstance" "datagram \<noteq> []"
  shows "if new_ok \<and> append_res = OT_ERROR_NONE
         then stack_calls
                (snd (processTransmit p aInstance (Some datagram) new_ok append_res send_res s))
              = [Ip6Send (let packet = take kMaxIp6Size datagram in
                          if is_bsd p \<and> 4 \<le> length packet \<and> packet ! 0 = 0 \<and> packet ! 1 = 0
                          then drop 4 packet else packet)]
            \<and> (is_bsd p \<and> take kMaxIp6Size datagram = [0, 0, h2, h3] @ P
                 \<longrightarrow> stack_calls
                       (snd (processTransmit p aInstance (Some datagram) new_ok append_res
                               send_res s))
                     = [Ip6Send P])
            \<and> (\<not> is_bsd p
                 \<longrightarrow> stack_calls
                       (snd (processTransmit p aInstance (Some datagram) new_ok append_res
                               send_res s))
                     = [Ip6Send (take kMaxIp6Size datagram)])
         else fst (processTransmit p aInstance (Some datagram) new_ok append_res send_res s)
                = Returns
            \<and> stack_calls
                (snd (processTransmit p aInstance (Some datagram) new_ok append_res send_res s))
              = []"
proof (cases "new_ok \<and> append_res = OT_ERROR_NONE")
  case True
  have sent: "stack_calls
        (snd (processTransmit p aInstance (Some datagram) new_ok append_res send_res s))
      = [Ip6Send (let packet = take kMaxIp6Size datagram in
                  if is_bsd p \<and> 4 \<le> length packet \<and> packet ! 0 = 0 \<and> packet ! 1 = 0
                  then drop 4 packet else packet)]"
    using assms True
    by (auto simp: processTransmit_def Let_def stack_calls_def kMaxIp6Size_def)
  have framed: "stack_calls
        (snd (processTransmit p aInstance (Some datagram) new_ok append_res send_res s))
      = [Ip6Send P]" if "is_bsd p \<and> take kMaxIp6Size datagram = [0, 0, h2, h3] @ P"
  proof -
    from that have eq: "take kMaxIp6Size datagram = [0, 0, h2, h3] @ P" and "is_bsd p"
      by simp_all
    then show ?thesis unfolding sent Let_def eq by simp
  qed
  have bare: "stack_calls
        (snd (processTransmit p aInstance (Some datagram) new_ok append_res send_res s))
      = [Ip6Send (take kMaxIp6Size datagram)]" if "\<not> is_bsd p"
    unfolding sent Let_def using that by simp
  show ?thesis unfolding if_P [OF True] using sent framed bare by blast
next
  case False
  then have dropped:
    "fst (processTransmit p aInstance (Some datagram) new_ok append_res send_res s)
                = Returns
     \<and> stack_calls
          (snd (processTransmit p aInstance (Some datagram) new_ok append_res send_res s)) = []"
    using assms(1)
    by (auto simp: processTransmit_def Let_def stack_calls_def)
  show ?thesis unfolding if_not_P [OF False] by (rule dropped)
qed

theorem tun_read_sent_once_witness:
  "sInstance example_state = 1 \<and> [0, 0, 0, 0x1E, 0x60, 0, 0, 0 :: byte] \<noteq> []
   \<and> is_bsd Apple \<and> \<not> is_bsd Linux
   \<and> take kMaxIp6Size [0, 0, 0, 0x1E, 0x60, 0, 0, 0 :: byte] = [0, 0, 0, 0x1E] @ [0x60, 0, 0, 0]
   \<and> stack_calls (snd (processTransmit Apple 1 (Some [0, 0, 0, 0x1E, 0x60, 0, 0, 0]) True
                         OT_ERROR_NONE OT_ERROR_NONE example_state))
       = [Ip6Send [0x60, 0, 0, 0]]
   \<and> stack_calls (snd (processTransmit Linux 1 (Some [0, 0, 0, 0x1E, 0x60, 0, 0, 0]) True
                         OT_ERROR_NONE OT_ERROR_NONE example_state))
       = [Ip6Send (take kMaxIp6Size [0, 0, 0, 0x1E, 0x60, 0, 0, 0])]
   \<and> stack_calls (snd (processTransmit Apple 1 (Some [0, 0, 0, 0x1E, 0x60, 0, 0, 0]) False
                         OT_ERROR_NONE OT_ERROR_NONE example_state)) = []
   \<and> stack_calls (snd (processTransmit Apple 1 (Some [0, 0, 0, 0x1E, 0x60, 0, 0, 0]) True
                         OT_ERROR_NO_BUFS OT_ERROR_NONE example_state)) = []"
proof -
  let ?d = "[0, 0, 0, 0x1E, 0x60, 0, 0, 0 :: byte]"
  have h: "sInstance example_state = 1" "?d \<noteq> []"
    by (simp_all add: example_state_def)
  have b: "is_bsd Apple" "\<not> is_bsd Linux" "take kMaxIp6Size ?d = [0, 0, 0, 0x1E] @ [0x60, 0, 0, 0]"
    by (simp_all add: kMaxIp6Size_def)
  have e: "OT_ERROR_NO_BUFS \<noteq> OT_ERROR_NONE" by simp
  from tun_read_sent_once
         [OF h, where p = Apple and ?h2.0 = 0 and ?h3.0 = "0x1E" and P = "[0x60, 0, 0, 0]"
            and new_ok = True and append_res = OT_ERROR_NONE and send_res = OT_ERROR_NONE] b
  have 1: "stack_calls (snd (processTransmit Apple 1 (Some ?d) True
                         OT_ERROR_NONE OT_ERROR_NONE example_state)) = [Ip6Send [0x60, 0, 0, 0]]"
    by simp
  from tun_read_sent_once
         [OF h, where p = Linux and ?h2.0 = 0 and ?h3.0 = "0x1E" and P = "[0x60, 0, 0, 0]"
            and new_ok = True and append_res = OT_ERROR_NONE and send_res = OT_ERROR_NONE] b
  have 2: "stack_calls (snd (processTransmit Linux 1 (Some ?d) True
                         OT_ERROR_NONE OT_ERROR_NONE example_state))
             = [Ip6Send (take kMaxIp6Size ?d)]"
    by simp
  from tun_read_sent_once
         [OF h, where p = Apple and new_ok = False and append_res = OT_ERROR_NONE
            and send_res = OT_ERROR_NONE]
  have 3: "stack_calls (snd (processTransmit Apple 1 (Some ?d) False
                         OT_ERROR_NONE OT_ERROR_NONE example_state)) = []"
    by simp
  from tun_read_sent_once
         [OF h, where p = Apple and new_ok = True and append_res = OT_ERROR_NO_BUFS
            and send_res = OT_ERROR_NONE] e
  have 4: "stack_calls (snd (processTransmit Apple 1 (Some ?d) True
                         OT_ERROR_NO_BUFS OT_ERROR_NONE example_state)) = []"
    by simp
  from h b 1 2 3 4 show ?thesis by blast
qed

subsection \<open>Adding a unicast address to the kernel\<close>

text \<open>
  Claim C5, as it stands, fails on Linux: the add goes through \<^verbatim>\<open>VerifyOrDie\<close>, so a
  failed \<^verbatim>\<open>SIOCSIFADDR\<close>, that of an address that exists already included, ends the process.
\<close>

theorem add_unicast_counterexample:
  "UpdateUnicast Linux 1 addr_fe80_abcd 64 True (Sys_err EEXIST) example_state
     = (Dies OT_EXIT_ERROR_ERRNO, [Ioctl 4 (SIOCSIFADDR addr_fe80_abcd 64 2)])"
  by (simp add: UpdateUnicast_def example_state_def)

text \<open>
  Claim C5, amended. For an add with the control socket open: on macOS, NetBSD and FreeBSD
  the call always returns, the errno \<^verbatim>\<open>EALREADY\<close> counts as success, and a warning is logged
  exactly for every other failure of the request; on Linux the call ends the process with
  \<^verbatim>\<open>OT_EXIT_ERROR_ERRNO\<close> exactly when the request fails.
\<close>

theorem add_unicast_failure:
  assumes "sInstance s = aInstance" "0 \<le> sIpFd s"
  shows "if is_bsd p
         then fst (UpdateUnicast p aInstance a pl True res s) = Returns
            \<and> (Log Warn \<in> set (snd (UpdateUnicast p aInstance a pl True res s)))
                = (res \<noteq> Sys_ok \<and> res \<noteq> Sys_err EALREADY)
         else (fst (UpdateUnicast p aInstance a pl True res s) = Dies OT_EXIT_ERROR_ERRNO)
                = (res \<noteq> Sys_ok)"
proof -
  obtain pm where "apply_mask (replicate 16 0xFF) pl = Some pm"
    using apply_mask_ones [of pl] by blast
  with assms show ?thesis
    by (cases p) (auto simp: UpdateUnicast_def Let_def)
qed

theorem add_unicast_failure_witness:
  "sInstance example_state = 1 \<and> 0 \<le> sIpFd example_state
   \<and> fst (UpdateUnicast Apple 1 addr_fe80_abcd 64 True (Sys_err EALREADY) example_state) = Returns
   \<and> Log Warn \<notin> set (snd (UpdateUnicast Apple 1 addr_fe80_abcd 64 True (Sys_err EALREADY)
                              example_state))
   \<and> fst (UpdateUnicast Apple 1 addr_fe80_abcd 64 True (Sys_err EINVAL) example_state) = Returns
   \<and> Log Warn \<in> set (snd (UpdateUnicast Apple 1 addr_fe80_abcd 64 True (Sys_err EINVAL)
                              example_state))
   \<and> fst (UpdateUnicast Linux 1 addr_fe80_abcd 64 True (Sys_err EINVAL) example_state)
       = Dies OT_EXIT_ERROR_ERRNO"
proof -
  have h: "sInstance example_state = 1" "0 \<le> sIpFd example_state"
    by (simp_all add: example_state_def)
  from add_unicast_failure [OF h, of Apple addr_fe80_abcd 64 "Sys_err EALREADY"]
    add_unicast_failure [OF h, of Apple addr_fe80_abcd 64 "Sys_err EINVAL"]
    add_unicast_failure [OF h, of Linux addr_fe80_abcd 64 "Sys_err EINVAL"] h
  show ?thesis by simp
qed

subsection \<open>MLDv2 reports\<close>

lemma ntohs_htons:
  assumes "n < 65536"
  shows "ntohs (htons n ! 0) (htons n ! 1) = n"
proof -
  from assms have d: "n div 256 < 256" by simp
  have "unat (of_nat (n div 256) :: byte) = n div 256"
    using d by (simp add: unat_of_nat)
  moreover have "unat (of_nat (n mod 256) :: byte) = n mod 256"
    by (simp add: unat_of_nat)
  ultimately show ?thesis by (simp add: ntohs_def htons_def)
qed

lemma length_concat_sources:
  "list_all (\<lambda>a. length a = 16) xs \<Longrightarrow> length (concat xs) = 16 * length xs"
  by (induction xs) simp_all

lemma length_encode_record:
  "wf_record r \<Longrightarrow> length (encode_record r) = 20 + 16 * length (sources r)"
  by (simp add: encode_record_def htons_def length_concat_sources wf_record_def)

lemma encode_record_fields:
  assumes "wf_record r"
  shows "(pre @ encode_record r @ post) ! (length pre) = record_type r"
    and "ntohs ((pre @ encode_record r @ post) ! (length pre + 2))
               ((pre @ encode_record r @ post) ! (length pre + 3)) = length (sources r)"
    and "take 16 (drop (length pre + 4) (pre @ encode_record r @ post)) = multicast_address r"
proof -
  show "(pre @ encode_record r @ post) ! (length pre) = record_type r"
    by (simp add: encode_record_def nth_append)
  from assms have n: "length (sources r) < 65536" by (simp add: wf_record_def)
  have "(pre @ encode_record r @ post) ! (length pre + 2) = htons (length (sources r)) ! 0"
    by (simp add: encode_record_def nth_append htons_def)
  moreover
  have "(pre @ encode_record r @ post) ! (length pre + 3) = htons (length (sources r)) ! 1"
    by (simp add: encode_record_def nth_append htons_def)
  ultimately show "ntohs ((pre @ encode_record r @ post) ! (length pre + 2))
               ((pre @ encode_record r @ post) ! (length pre + 3)) = length (sources r)"
    using ntohs_htons [OF n] by simp
  from assms
  show "take 16 (drop (length pre + 4) (pre @ encode_record r @ post)) = multicast_address r"
    by (simp add: encode_record_def htons_def wf_record_def)
qed

lemma stack_calls_append: "stack_calls (xs @ ys) = stack_calls xs @ stack_calls ys"
  by (simp add: stack_calls_def)

lemma mld_record_loop_encoded:
  "list_all wf_record rs \<Longrightarrow> length rs \<le> k \<Longrightarrow>
   stack_calls (mld_record_loop k (length pre) (pre @ concat (map encode_record rs)) st)
     = concat (map record_action rs)"
proof (induction rs arbitrary: k pre)
  case Nil
  then show ?case by (cases k) (simp_all add: stack_calls_def)
next
  case (Cons r rs)
  then obtain k' where k: "k = Suc k'" and k': "length rs \<le> k'" by (cases k) auto
  from Cons.prems have wf: "wf_record r" and wfs: "list_all wf_record rs" by simp_all
  let ?post = "concat (map encode_record rs)"
  let ?buf = "pre @ encode_record r @ ?post"
  have buf: "pre @ concat (map encode_record (r # rs)) = ?buf" by simp
  have len: "length (encode_record r) = 20 + 16 * length (sources r)"
    by (rule length_encode_record [OF wf])
  have next_off: "length pre + (sizeof_MLDv2Record + 16 * length (sources r))
      = length (pre @ encode_record r)"
    by (simp add: len sizeof_MLDv2Record_def)
  have ih: "stack_calls (mld_record_loop k' (length (pre @ encode_record r))
               ((pre @ encode_record r) @ ?post) st)
      = concat (map record_action rs)"
    by (rule Cons.IH [OF wfs k'])
  have step: "mld_record_loop (Suc k') (length pre) ?buf st
      = (if record_type r = kICMPv6MLDv2RecordChangeToIncludeType
         then [Ip6SubscribeMulticastAddress (multicast_address r),
               Log (if subscribe_res st (multicast_address r) = OT_ERROR_ALREADY then Note
                    else if subscribe_res st (multicast_address r) \<noteq> OT_ERROR_NONE
                         then Warn else Debg)]
         else if record_type r = kICMPv6MLDv2RecordChangeToExcludeType
         then [Ip6UnsubscribeMulticastAddress (multicast_address r),
               Log (if unsubscribe_res st (multicast_address r) \<noteq> OT_ERROR_NONE
                    then Warn else Debg)]
         else [])
        @ mld_record_loop k' (length (pre @ encode_record r))
            ((pre @ encode_record r) @ ?post) st"
    unfolding mld_record_loop.simps encode_record_fields [OF wf] Let_def next_off
    by (simp add: len sizeof_MLDv2Record_def)
  have act: "stack_calls
        (if record_type r = kICMPv6MLDv2RecordChangeToIncludeType
         then [Ip6SubscribeMulticastAddress (multicast_address r),
               Log (if subscribe_res st (multicast_address r) = OT_ERROR_ALREADY then Note
                    else if subscribe_res st (multicast_address r) \<noteq> OT_ERROR_NONE
                         then Warn else Debg)]
         else if record_type r = kICMPv6MLDv2RecordChangeToExcludeType
         then [Ip6UnsubscribeMulticastAddress (multicast_address r),
               Log (if unsubscribe_res st (multicast_address r) \<noteq> OT_ERROR_NONE
                    then Warn else Debg)]
         else []) = record_action r"
    by (simp add: stack_calls_def record_action_def kICMPv6MLDv2RecordChangeToIncludeType_def
          kICMPv6MLDv2RecordChangeToExcludeType_def)
  show ?case
    unfolding buf k step stack_calls_append ih act by simp
qed

text \<open>
  Claim C2, as it stands, fails: the code subscribes on record type 4 and unsubscribes on
  record type 3, the other way round. A report from the tunnel's own address \<open>fe80::1\<close> with
  the one record of type 3 for \<open>ff03::abcd\<close> (scenario S4 of the specification) makes the
  stack unsubscribe from \<open>ff03::abcd\<close>.
\<close>

theorem mld_report_counterexample:
  "processMLDEvent
     (Some (encode_report 0 0
              [\<lparr>record_type = 3, multicast_address = addr_ff03_abcd, sources = []\<rparr>],
            addr_fe80_1))
     (Some example_ifaddrs) accepting_stack example_state
   = (Returns, [Ip6UnsubscribeMulticastAddress addr_ff03_abcd, Log Debg])"
  by (simp add: processMLDEvent_def encode_report_def encode_record_def htons_def
        example_ifaddrs_def example_state_def accepting_stack_def addr_ff03_abcd_def
        addr_fe80_1_def kMaxMLDEvent_def kICMPv6MLDv2Type_def sizeof_MLDv2Header_def
        sizeof_MLDv2Record_def ntohs_def IFNAMSIZ_def
        kICMPv6MLDv2RecordChangeToIncludeType_def kICMPv6MLDv2RecordChangeToExcludeType_def)

text \<open>
  Claim C2, amended. For every well-formed MLDv2 report (type 143, at most 8192 octets, as
  many records as its header says) received from one of the tunnel's own addresses, the calls
  to the stack are, record by record and in order: a subscribe to the record's multicast
  address for record type 4, an unsubscribe from it for record type 3, nothing for any other
  type.
\<close>

theorem mld_report_actions:
  assumes wf: "list_all wf_record rs"
    and n: "length rs < 65536"
    and fits: "length (encode_report ck1 ck2 rs) \<le> kMaxMLDEvent"
    and self: "from_self_loop (sTunName s) srcAddr ifAddrs"
  shows "fst (processMLDEvent (Some (encode_report ck1 ck2 rs, srcAddr)) (Some ifAddrs) st s)
           = Returns
    \<and> stack_calls
        (snd (processMLDEvent (Some (encode_report ck1 ck2 rs, srcAddr)) (Some ifAddrs) st s))
        = concat (map record_action rs)"
proof -
  let ?hdr = "[143, 0, ck1, ck2, 0, 0] @ htons (length rs)"
  have rep: "encode_report ck1 ck2 rs = ?hdr @ concat (map encode_record rs)"
    by (simp add: encode_report_def)
  have hl: "length ?hdr = sizeof_MLDv2Header" by (simp add: htons_def sizeof_MLDv2Header_def)
  from fits have tk: "take kMaxMLDEvent (encode_report ck1 ck2 rs) = encode_report ck1 ck2 rs"
    by simp
  have cnt: "ntohs (encode_report ck1 ck2 rs ! 6) (encode_report ck1 ck2 rs ! 7) = length rs"
  proof -
    have "encode_report ck1 ck2 rs ! 6 = htons (length rs) ! 0"
      by (simp add: encode_report_def htons_def)
    moreover have "encode_report ck1 ck2 rs ! 7 = htons (length rs) ! 1"
      by (simp add: encode_report_def htons_def)
    ultimately show ?thesis using ntohs_htons [OF n] by simp
  qed
  have ty: "encode_report ck1 ck2 rs ! 0 = kICMPv6MLDv2Type"
    by (simp add: encode_report_def kICMPv6MLDv2Type_def)
  have ln: "sizeof_MLDv2Header \<le> length (encode_report ck1 ck2 rs)"
    by (simp add: encode_report_def htons_def sizeof_MLDv2Header_def)
  have nz: "kMaxMLDEvent \<noteq> 0" by (simp add: kMaxMLDEvent_def)
  have ne: "encode_report ck1 ck2 rs \<noteq> []" by (simp add: encode_report_def)
  have loop: "stack_calls
        (mld_record_loop (length rs) sizeof_MLDv2Header (encode_report ck1 ck2 rs) st)
      = concat (map record_action rs)"
    using mld_record_loop_encoded [OF wf order_refl, of ?hdr st]
    unfolding rep hl .
  have "processMLDEvent (Some (encode_report ck1 ck2 rs, srcAddr)) (Some ifAddrs) st s
      = (Returns, mld_record_loop (length rs) sizeof_MLDv2Header (encode_report ck1 ck2 rs) st)"
    using ln self nz ne
    by (simp add: processMLDEvent_def tk cnt ty Let_def)
  with loop show ?thesis by simp
qed

theorem mld_report_actions_witness:
  "list_all wf_record
     [\<lparr>record_type = 4, multicast_address = addr_ff03_abcd, sources = [addr_fe80_abcd]\<rparr>,
      \<lparr>record_type = 3, multicast_address = addr_ff03_abcd, sources = []\<rparr>]
   \<and> from_self_loop (sTunName example_state) addr_fe80_1 example_ifaddrs
   \<and> stack_calls
       (snd (processMLDEvent
          (Some (encode_report 0 0
             [\<lparr>record_type = 4, multicast_address = addr_ff03_abcd, sources = [addr_fe80_abcd]\<rparr>,
              \<lparr>record_type = 3, multicast_address = addr_ff03_abcd, sources = []\<rparr>],
             addr_fe80_1))
          (Some example_ifaddrs) accepting_stack example_state))
     = [Ip6SubscribeMulticastAddress addr_ff03_abcd,
        Ip6UnsubscribeMulticastAddress addr_ff03_abcd]"
proof -
  let ?rs = "[\<lparr>record_type = 4, multicast_address = addr_ff03_abcd, sources = [addr_fe80_abcd]\<rparr>,
              \<lparr>record_type = 3, multicast_address = addr_ff03_abcd, sources = []\<rparr>]"
  have wf: "list_all wf_record ?rs"
    by (simp add: wf_record_def addr_ff03_abcd_def addr_fe80_abcd_def)
  have n: "length ?rs < 65536" by simp
  have fits: "length (encode_report 0 0 ?rs) \<le> kMaxMLDEvent"
    by (simp add: encode_report_def encode_record_def htons_def kMaxMLDEvent_def
          addr_ff03_abcd_def addr_fe80_abcd_def)
  have self: "from_self_loop (sTunName example_state) addr_fe80_1 example_ifaddrs"
    by (simp add: example_state_def example_ifaddrs_def IFNAMSIZ_def)
  from mld_report_actions [OF wf n fits self, of accepting_stack] wf self
  show ?thesis by (simp add: record_action_def)
qed

subsection \<open>A link-local address announced by the kernel\<close>

text \<open>
  Claim C3, as it stands, fails on Linux, where \<^verbatim>\<open>unicastAddressIsSubscribed\<close> is not
  compiled and the handler has no link-local case: the address \<open>fe80::abcd\<close>, which the
  stack does not have, is added to the stack, and no request goes to the kernel.
\<close>

theorem link_local_counterexample:
  "IN6_IS_ADDR_LINKLOCAL addr_fe80_abcd
   \<and> \<not> unicastAddressIsSubscribed (unicast_addresses accepting_stack) addr_fe80_abcd
   \<and> processNetifAddrEvent_linux accepting_stack example_nl_newaddr example_state
     = (Returns, [Ip6AddUnicastAddress addr_fe80_abcd 64, Log Note, Log Info])"
  by (simp add: processNetifAddrEvent_linux_def example_nl_newaddr_def example_state_def
        accepting_stack_def IsMulticast_def addr_fe80_abcd_def IN6_IS_ADDR_LINKLOCAL_def)

text \<open>
  Claim C3, amended. On the routing-socket platforms (macOS, NetBSD, FreeBSD), for every
  \<^verbatim>\<open>RTM_NEWADDR\<close> message for the tunnel whose interface address is a link-local unicast
  address that, with octet 3 (the embedded scope) cleared, is not in the stack's unicast list,
  the handler issues the one request \<^verbatim>\<open>SIOCDIFADDR_IN6\<close> for that address with octet 3
  cleared, and calls no operation of the stack.
\<close>

theorem link_local_removed:
  assumes t: "rtm_type rtm = RTM_NEWADDR"
    and idx: "rtm_index rtm = sTunIndex s"
    and nz: "rtm_addrs rtm \<noteq> 0"
    and parse: "rtax_loop [0..<RTAX_MAX p] (rtm_addrs rtm) (rtm_sockaddrs rtm)
                  \<lparr>sa_family = AF_UNSPEC, sin6_addr = junk_addr\<rparr>
                  \<lparr>sa_family = AF_UNSPEC, sin6_addr = junk_mask\<rparr> = Some (addr6, netmask)"
    and fam: "sa_family addr6 = AF_INET6"
    and ll: "IN6_IS_ADDR_LINKLOCAL (sin6_addr addr6)"
    and unk: "\<not> unicastAddressIsSubscribed (unicast_addresses st) ((sin6_addr addr6)[3 := 0])"
  shows "processNetifAddrEvent_bsd p st del_res junk_addr junk_mask rtm s
     = (Returns,
        [Ioctl (sIpFd s)
           (SIOCDIFADDR_IN6 ((sin6_addr addr6)[3 := 0])
              (netmask_of (min (calculate_prefix_len (sin6_addr netmask) mod 256) 128))),
         Log (if del_res \<noteq> Sys_ok then Warn else Note)])
    \<and> stack_calls (snd (processNetifAddrEvent_bsd p st del_res junk_addr junk_mask rtm s)) = []"
proof -
  let ?a = "sin6_addr addr6"
  from ll have a0: "?a ! 0 = 0xfe" by (simp add: IN6_IS_ADDR_LINKLOCAL_def)
  have "(?a[3 := 0]) ! 0 = ?a ! 0" by (rule nth_list_update_neq) simp
  with a0 have nm: "\<not> IsMulticast (?a[3 := 0])" by (simp add: IsMulticast_def)
  have pm: "apply_mask (replicate 16 0xFF)
              (of_nat (calculate_prefix_len (sin6_addr netmask)) :: byte)
      = Some (netmask_of (min (calculate_prefix_len (sin6_addr netmask) mod 256) 128))"
    by (simp add: apply_mask_ones unat_of_nat)
  have h: "handle_addr6 p st del_res RTM_NEWADDR ?a (sin6_addr netmask) s
     = (Returns,
        [Ioctl (sIpFd s)
           (SIOCDIFADDR_IN6 (?a[3 := 0])
              (netmask_of (min (calculate_prefix_len (sin6_addr netmask) mod 256) 128))),
         Log (if del_res \<noteq> Sys_ok then Warn else Note)])"
    using ll nm unk by (simp add: handle_addr6_def Let_def pm)
  have "processNetifAddrEvent_bsd p st del_res junk_addr junk_mask rtm s
      = handle_addr6 p st del_res RTM_NEWADDR ?a (sin6_addr netmask) s"
    using t idx nz fam by (simp add: processNetifAddrEvent_bsd_def Let_def parse)
  with h show ?thesis by (simp add: stack_calls_def)
qed

lemma example_rt_newaddr_parsed:
  "rtax_loop [0..<RTAX_MAX Apple] (rtm_addrs example_rt_newaddr)
     (rtm_sockaddrs example_rt_newaddr)
     \<lparr>sa_family = AF_UNSPEC, sin6_addr = []\<rparr> \<lparr>sa_family = AF_UNSPEC, sin6_addr = []\<rparr>
   = Some (\<lparr>sa_family = AF_INET6, sin6_addr = addr_fe80_abcd\<rparr>,
           \<lparr>sa_family = AF_INET6, sin6_addr = netmask_of 64\<rparr>)"
  by (simp add: example_rt_newaddr_def RTAX_MAX_def upt_rec RTAX_IFA_def RTAX_NETMASK_def)

theorem link_local_removed_witness:
  "rtm_type example_rt_newaddr = RTM_NEWADDR
   \<and> rtm_index example_rt_newaddr = sTunIndex example_state
   \<and> IN6_IS_ADDR_LINKLOCAL addr_fe80_abcd
   \<and> \<not> unicastAddressIsSubscribed (unicast_addresses accepting_stack) (addr_fe80_abcd[3 := 0])
   \<and> processNetifAddrEvent_bsd Apple accepting_stack Sys_ok [] [] example_rt_newaddr example_state
       = (Returns, [Ioctl 4 (SIOCDIFADDR_IN6 addr_fe80_abcd (netmask_of 64)), Log Note])"
proof -
  have 1: "rtm_type example_rt_newaddr = RTM_NEWADDR" by (simp add: example_rt_newaddr_def)
  have 2: "rtm_index example_rt_newaddr = sTunIndex example_state"
    by (simp add: example_rt_newaddr_def example_state_def)
  have 3: "rtm_addrs example_rt_newaddr \<noteq> 0" by (simp add: example_rt_newaddr_def)
  have 5: "sa_family \<lparr>sa_family = AF_INET6, sin6_addr = addr_fe80_abcd\<rparr> = AF_INET6" by simp
  have 6: "IN6_IS_ADDR_LINKLOCAL (sin6_addr \<lparr>sa_family = AF_INET6, sin6_addr = addr_fe80_abcd\<rparr>)"
    by (simp add: IN6_IS_ADDR_LINKLOCAL_def addr_fe80_abcd_def)
  have 7: "\<not> unicastAddressIsSubscribed (unicast_addresses accepting_stack)
      ((sin6_addr \<lparr>sa_family = AF_INET6, sin6_addr = addr_fe80_abcd\<rparr>)[3 := 0])"
    by (simp add: accepting_stack_def)
  have 8: "addr_fe80_abcd[3 := 0] = addr_fe80_abcd" by (simp add: addr_fe80_abcd_def)
  have 9: "calculate_prefix_len (netmask_of 64) = 64"
    using prefix_len_loop_pack [of 16 64 64 0]
    by (simp add: calculate_prefix_len_def netmask_of_def)
  from link_local_removed [OF 1 2 3 example_rt_newaddr_parsed 5 6 7, of Sys_ok] 1 2 6 7
  show ?thesis by (simp add: 8 9 example_state_def stack_calls_def)
qed

end
